theory Spec2Isabelle
  imports Complex_Main "HOL-Library.Sublist"
begin

section \<open>Python values and errors\<close>

text \<open>
  Exceptions the modelled code can raise, and the one HTTP error response
  (\<open>NoContentChunks\<close>, status 400) that ends question generation early.
  A function that can fail returns \<open>py_error + 'a\<close>, with \<open>Inl\<close> for the failure.
\<close>

datatype py_error = ZeroDivisionError | ValueError | TypeError | OverflowError | NoContentChunks

text \<open>
  Strings are lists of characters; a \<open>char\<close> stands for the code point of the same
  number (0..255, the Latin-1 range), so \<open>length\<close> counts code points as Python's
  \<open>len\<close> does on such strings.
\<close>

definition digit_char :: "nat \<Rightarrow> char" where
  "digit_char d = char_of (48 + d)"

text \<open>\<open>str(n)\<close> for a non-negative Python int: decimal digits, no leading zero.\<close>

fun str_nat :: "nat \<Rightarrow> string" where
  "str_nat n = (if n < 10 then [digit_char n] else str_nat (n div 10) @ [digit_char (n mod 10)])"

declare str_nat.simps [simp del]

section \<open>Chunk selection (app.py, generate_questions)\<close>

text \<open>
  The requested count reaches the selection code only after the clamp of lines 277-284,
  as a non-negative int; lengths and indices are non-negative as well. All are \<open>nat\<close>.
  \<open>n // question_count\<close> raises ZeroDivisionError for a zero divisor.

  The inner loop of the backfill (lines 352-355) appends the first index of
  \<open>range(len(chunks))\<close> that is not yet chosen, if there is one.
\<close>

definition backfill_step :: "nat \<Rightarrow> nat \<Rightarrow> nat list \<Rightarrow> nat \<Rightarrow> nat list" where
  "backfill_step n middle_start ci i =
     (if middle_start + i < n \<and> middle_start + i \<notin> set ci then ci @ [middle_start + i]
      else (case List.find (\<lambda>j. j \<notin> set ci) [0..<n] of
              None \<Rightarrow> ci
            | Some j \<Rightarrow> ci @ [j]))"

text \<open>Lines 335-360 (YouTube branch); \<open>n\<close> is \<open>len(chunks)\<close>.\<close>

definition chunk_indices :: "nat \<Rightarrow> nat \<Rightarrow> py_error + nat list" where
  "chunk_indices n question_count =
     (if n \<le> question_count then Inr [0..<n]
      else if question_count = 0 then Inl ZeroDivisionError
      else
        let step = n div question_count;
            ci = map (\<lambda>i. i * step) [0..<question_count];
            ci' = (if length ci < question_count
                   then foldl (backfill_step n (n div 3)) ci [0..<question_count - length ci]
                   else ci)
        in Inr (take question_count (sort ci')))"

text \<open>
  Lines 501-510 (subtitle branch): the indices are computed the same way, filtered by
  the array bound, and the chunks are looked up at once. With no more chunks than
  requested the chunk list itself is taken.
\<close>

definition selected_indices :: "nat \<Rightarrow> nat \<Rightarrow> nat list" where
  "selected_indices n question_count =
     (let step = n div question_count;
          si = map (\<lambda>i. i * step) [0..<question_count]
      in filter (\<lambda>i. i < n) si)"

definition selected_chunks :: "'a list \<Rightarrow> nat \<Rightarrow> py_error + 'a list" where
  "selected_chunks topic_chunks question_count =
     (if length topic_chunks \<le> question_count then Inr topic_chunks
      else if question_count = 0 then Inl ZeroDivisionError
      else Inr (map (\<lambda>i. topic_chunks ! i)
                  (selected_indices (length topic_chunks) question_count)))"

text \<open>What the selection promises about an index list.\<close>

definition selection_ok :: "nat \<Rightarrow> nat \<Rightarrow> nat list \<Rightarrow> bool" where
  "selection_ok chunk_count target_count xs \<longleftrightarrow>
     length xs = min chunk_count target_count \<and> sorted_wrt (<) xs \<and> list_all (\<lambda>i. i < chunk_count) xs"

section \<open>Segmenter (subtitle_parser.py, group_by_topic)\<close>

text \<open>
  A transcript segment and a topic chunk are dictionaries with fixed keys. Timestamps are
  floats that the modelled code only copies and formats, so their type is a parameter.
  The keys \<open>text\<close>, \<open>start_time\<close>, \<open>end_time\<close> occur in both dictionaries; the
  segment's fields carry the prefix \<open>seg_\<close>, and the chunk's \<open>text\<close> is \<open>chunk_text\<close>.
\<close>

record 't segment =
  seg_index :: int
  seg_text :: string
  seg_start_time :: 't
  seg_end_time :: 't
  seg_start_time_str :: string
  seg_end_time_str :: string

record 't chunk =
  start_index :: int
  end_index :: int
  start_time :: 't
  end_time :: 't
  chunk_text :: string
  segments :: "'t segment list"

text \<open>\<open>sep.join(xs)\<close>\<close>

fun join_with :: "string \<Rightarrow> string list \<Rightarrow> string" where
  "join_with sep [] = []"
| "join_with sep [x] = x"
| "join_with sep (x # y # ys) = x @ sep @ join_with sep (y # ys)"

text \<open>The dictionary built at lines 91-98 from a non-empty window.\<close>

definition make_group :: "'t segment list \<Rightarrow> 't chunk" where
  "make_group chunk =
     \<lparr>start_index = seg_index (hd chunk),
      end_index = seg_index (last chunk),
      start_time = seg_start_time (hd chunk),
      end_time = seg_end_time (last chunk),
      chunk_text = join_with '' '' (map seg_text chunk),
      segments = chunk\<rparr>"

text \<open>
  The loop \<open>for i in range(0, len(segments), window_size)\<close> for a positive step;
  \<open>segments[i:i + window_size]\<close> is \<open>take w (drop i segs)\<close>.
\<close>

function group_loop :: "'t segment list \<Rightarrow> nat \<Rightarrow> nat \<Rightarrow> 't chunk list \<Rightarrow> 't chunk list" where
  "group_loop segs w i groups =
     (if w = 0 \<or> length segs \<le> i then groups
      else
        let chunk = take w (drop i segs)
        in group_loop segs w (i + w)
             (if length chunk > 0 then groups @ [make_group chunk] else groups))"
  by pat_completeness auto
termination
  by (relation "measure (\<lambda>(segs, w, i, groups). length segs - i)") auto

declare group_loop.simps [simp del]

text \<open>
  \<open>range\<close> raises ValueError for a zero step and is empty for a negative one.
\<close>

definition group_by_topic :: "'t segment list \<Rightarrow> int \<Rightarrow> py_error + 't chunk list" where
  "group_by_topic segs window_size =
     (if window_size = 0 then Inl ValueError
      else if window_size < 0 then Inr []
      else Inr (group_loop segs (nat window_size) 0 []))"

text \<open>A chunk that is the dictionary of its own segment list.\<close>

definition is_group :: "'t chunk \<Rightarrow> bool" where
  "is_group g \<longleftrightarrow> g = make_group (segments g)"

text \<open>
  A chunk list that cuts \<open>segs\<close> into consecutive windows of \<open>w\<close> segments, the last
  one possibly shorter, none empty.
\<close>

definition windows_ok :: "nat \<Rightarrow> 't segment list \<Rightarrow> 't chunk list \<Rightarrow> bool" where
  "windows_ok w segs gs \<longleftrightarrow>
     concat (map segments gs) = segs
     \<and> list_all (\<lambda>g. length (segments g) = w) (butlast gs)
     \<and> list_all (\<lambda>g. 0 < length (segments g) \<and> length (segments g) \<le> w \<and> is_group g) gs"

section \<open>Python string operations\<close>

text \<open>
  Whitespace, letters and lower-casing as Python defines them on the code points 0..255.
  \<open>strip\<close> is \<open>str.strip()\<close>, \<open>lower\<close> is \<open>str.lower()\<close>, \<open>isalpha\<close> is
  \<open>str.isalpha()\<close> (false on the empty string), \<open>split\<close> is \<open>str.split()\<close> with no
  argument (cut at runs of whitespace, no empty words). The test \<open>a in b\<close> on strings is
  \<open>sublist a b\<close>.
\<close>

definition is_space :: "char \<Rightarrow> bool" where
  "is_space c \<longleftrightarrow>
     (of_char c :: nat) \<in> set [9, 10, 11, 12, 13, 28, 29, 30, 31, 32, 133, 160]"

definition strip :: "string \<Rightarrow> string" where
  "strip s = rev (dropWhile is_space (rev (dropWhile is_space s)))"

definition lower_char :: "char \<Rightarrow> char" where
  "lower_char c =
     (let n = (of_char c :: nat)
      in if (65 \<le> n \<and> n \<le> 90) \<or> (192 \<le> n \<and> n \<le> 222 \<and> n \<noteq> 215)
         then char_of (n + 32) else c)"

definition lower :: "string \<Rightarrow> string" where
  "lower s = map lower_char s"

definition is_alpha_char :: "char \<Rightarrow> bool" where
  "is_alpha_char c =
     (let n = (of_char c :: nat)
      in (65 \<le> n \<and> n \<le> 90) \<or> (97 \<le> n \<and> n \<le> 122) \<or> n = 170 \<or> n = 181 \<or> n = 186
         \<or> (192 \<le> n \<and> n \<le> 214) \<or> (216 \<le> n \<and> n \<le> 246) \<or> (248 \<le> n \<and> n \<le> 255))"

definition isalpha :: "string \<Rightarrow> bool" where
  "isalpha s \<longleftrightarrow> s \<noteq> [] \<and> list_all is_alpha_char s"

fun split_acc :: "string \<Rightarrow> string \<Rightarrow> string list" where
  "split_acc cur [] = (if cur = [] then [] else [cur])"
| "split_acc cur (c # cs) =
     (if is_space c then (if cur = [] then split_acc [] cs else cur # split_acc [] cs)
      else split_acc (cur @ [c]) cs)"

definition split :: "string \<Rightarrow> string list" where
  "split s = split_acc [] s"

text \<open>How an f-string prints a value that may be \<open>None\<close>.\<close>

definition py_str :: "string option \<Rightarrow> string" where
  "py_str v = (case v of None \<Rightarrow> ''None'' | Some s \<Rightarrow> s)"

definition quoted :: "string \<Rightarrow> string" where
  "quoted s = [CHR 0x27] @ s @ [CHR 0x27]"

section \<open>Assessment items and feedback (feedback_generator.py)\<close>

text \<open>
  A question is a dictionary. Keys the code tests or reads without a default are optional
  fields; keys read with a default only (\<open>question_text\<close> and \<open>sample_answer\<close> with
  \<open>''\<close>, \<open>key_points\<close> with \<open>[]\<close>) hold the default when absent. An option of a
  multiple-choice item is the pair of its \<open>id\<close> and its \<open>text\<close>.
\<close>

record 't question =
  qtype :: "string option"
  question_id :: string
  video_id :: string
  timestamp_start :: 't
  timestamp_end :: 't
  question_text :: string
  options :: "(string \<times> string) list option"
  correct_answer :: "string option"
  explanation :: "string option"
  sample_answer :: string
  key_points :: "string list"

record resource =
  title :: string
  url :: string
  description :: string

text \<open>
  The dictionary \<open>generate_feedback\<close> returns. \<open>is_partial\<close>, \<open>score_percentage\<close> and
  \<open>key_points\<close> are absent (\<open>None\<close>) for the item types that do not set them.
\<close>

record 't feedback_result =
  is_correct :: bool
  is_partial :: "bool option"
  score_percentage :: "int option"
  res_correct_answer :: "string option"
  res_key_points :: "string list option"
  res_explanation :: "string option"
  enhanced_feedback :: string
  additional_resources :: "resource list"
  res_question_id :: string
  res_timestamp_start :: 't
  res_timestamp_end :: 't
  res_video_id :: string

text \<open>
  The two collaborators of the evaluator are inputs of the model. The generative service
  is called at most once per evaluation: its parsed JSON answer is \<open>Some\<close> of the three
  values read from it (\<open>feedback\<close>, \<open>additional_resources\<close>, \<open>score_percentage\<close>, each
  with its default when missing), and \<open>None\<close> stands for a call that raises. The prompt
  sent to it, and with it \<open>context_text\<close>, has no other effect. The random source
  supplies \<open>random.choice\<close> and \<open>random.sample\<close>.
\<close>

record llm_result =
  llm_feedback :: string
  llm_resources :: "resource list"
  llm_score :: int

record rng =
  choice :: "string list \<Rightarrow> string"
  sample :: "resource list \<Rightarrow> nat \<Rightarrow> resource list"

definition incorrect_starters :: "string list" where
  "incorrect_starters =
     [''Not quite.'',
      ''That'' @ [CHR 0x27] @ ''s not correct.'',
      ''Your answer isn'' @ [CHR 0x27] @ ''t quite right.'',
      ''That'' @ [CHR 0x27] @ ''s a common misconception.'',
      ''You'' @ [CHR 0x27] @ ''re on the right track, but not quite there.'',
      ''Close, but not quite correct.'',
      ''That'' @ [CHR 0x27] @ ''s not the right answer.'',
      ''This isn'' @ [CHR 0x27] @ ''t the correct option.'',
      ''Good attempt, but that'' @ [CHR 0x27] @ ''s not right.'',
      ''That'' @ [CHR 0x27] @ ''s not accurate in this case.'',
      ''That'' @ [CHR 0x27] @ ''s a reasonable guess, but it'' @ [CHR 0x27] @ ''s not correct.'',
      ''That'' @ [CHR 0x27] @ ''s not the answer we'' @ [CHR 0x27] @ ''re looking for.'',
      ''That option isn'' @ [CHR 0x27] @ ''t correct.'',
      ''Your understanding needs a small adjustment here.'']"

definition correct_starters :: "string list" where
  "correct_starters =
     [''Excellent!'',
      ''That'' @ [CHR 0x27] @ ''s correct!'',
      ''Perfect answer!'',
      ''Well done!'',
      ''You got it!'',
      ''Spot on!'',
      ''That'' @ [CHR 0x27] @ ''s exactly right!'',
      ''Great job!'',
      ''You'' @ [CHR 0x27] @ ''re absolutely right!'',
      ''Correct!'',
      ''That'' @ [CHR 0x27] @ ''s the right answer!'',
      ''You'' @ [CHR 0x27] @ ''ve understood this well!'',
      ''That'' @ [CHR 0x27] @ ''s perfect!'',
      ''You'' @ [CHR 0x27] @ ''re showing good understanding here!'']"

definition general_resources :: "resource list" where
  "general_resources =
     [\<lparr>title = ''Khan Academy'', url = ''https://www.khanacademy.org/'',
       description = ''Free educational resources across many subjects with video lessons and practice exercises.''\<rparr>,
      \<lparr>title = ''MIT OpenCourseWare'', url = ''https://ocw.mit.edu/'',
       description = ''Free course materials from MIT covering a wide range of subjects.''\<rparr>,
      \<lparr>title = ''Coursera'', url = ''https://www.coursera.org/'',
       description = ''Online courses from top universities and companies across many disciplines.''\<rparr>,
      \<lparr>title = ''edX'', url = ''https://www.edx.org/'',
       description = ''Online courses from leading educational institutions on a variety of topics.''\<rparr>,
      \<lparr>title = ''MDN Web Docs'', url = ''https://developer.mozilla.org/'',
       description = ''Comprehensive documentation for web technologies and programming.''\<rparr>,
      \<lparr>title = ''W3Schools'', url = ''https://www.w3schools.com/'',
       description = ''Web development tutorials and reference materials with interactive examples.''\<rparr>,
      \<lparr>title = ''Digital Ocean Community Tutorials'',
       url = ''https://www.digitalocean.com/community/tutorials'',
       description = ''Detailed technical tutorials on programming, software, and system administration.''\<rparr>]"

definition generate_fallback_resources :: "rng \<Rightarrow> string \<Rightarrow> resource list" where
  "generate_fallback_resources r topic =
     sample r general_resources (min 3 (length general_resources))"

definition generate_template_feedback ::
  "rng \<Rightarrow> bool \<Rightarrow> string option \<Rightarrow> string option \<Rightarrow> string \<Rightarrow> string \<Rightarrow> string" where
  "generate_template_feedback r correct original_explanation correct_answer_id
       user_option_text correct_option_text =
     (if correct then choice r correct_starters @ '' '' @ py_str original_explanation
      else choice r incorrect_starters @ '' The correct answer is '' @ py_str correct_answer_id
           @ '' ('' @ correct_option_text @ ''). '' @ py_str original_explanation)"

text \<open>
  \<open>next((opt.get('text') for opt in options if test(opt.get('id'))), "Unknown option")\<close>
\<close>

definition option_text :: "(string \<Rightarrow> bool) \<Rightarrow> (string \<times> string) list \<Rightarrow> string" where
  "option_text test opts =
     (case List.find (\<lambda>opt. test (fst opt)) opts of
        None \<Rightarrow> ''Unknown option''
      | Some opt \<Rightarrow> snd opt)"

definition generate_multiple_choice_feedback ::
  "rng \<Rightarrow> llm_result option \<Rightarrow> 't question \<Rightarrow> string \<Rightarrow> bool \<Rightarrow> string option
     \<Rightarrow> string option \<Rightarrow> 't feedback_result" where
  "generate_multiple_choice_feedback r response question user_answer correct
       original_explanation context_text =
     (let opts = (case options question of None \<Rightarrow> [] | Some os \<Rightarrow> os);
          user_option_text = option_text (\<lambda>i. i = user_answer) opts;
          correct_option_text = option_text (\<lambda>i. Some i = correct_answer question) opts;
          question_topic = take 50 (question_text question)
      in case response of
           Some result \<Rightarrow>
             (let too_short = (llm_feedback result = [] \<or> length (llm_feedback result) < 20)
              in \<lparr>is_correct = correct,
                  is_partial = None,
                  score_percentage = None,
                  res_correct_answer = correct_answer question,
                  res_key_points = None,
                  res_explanation = original_explanation,
                  enhanced_feedback =
                    (if too_short
                     then generate_template_feedback r correct original_explanation
                            (correct_answer question) user_option_text correct_option_text
                     else llm_feedback result),
                  additional_resources =
                    (if too_short then generate_fallback_resources r question_topic
                     else llm_resources result),
                  res_question_id = question_id question,
                  res_timestamp_start = timestamp_start question,
                  res_timestamp_end = timestamp_end question,
                  res_video_id = video_id question\<rparr>)
         | None \<Rightarrow>
             \<lparr>is_correct = correct,
              is_partial = None,
              score_percentage = None,
              res_correct_answer = correct_answer question,
              res_key_points = None,
              res_explanation = original_explanation,
              enhanced_feedback =
                generate_template_feedback r correct original_explanation
                  (Some (case correct_answer question of None \<Rightarrow> [] | Some a \<Rightarrow> a))
                  ''your answer'' ''the correct answer'',
              additional_resources =
                generate_fallback_resources r (take 50 (question_text question)),
              res_question_id = question_id question,
              res_timestamp_start = timestamp_start question,
              res_timestamp_end = timestamp_end question,
              res_video_id = video_id question\<rparr>)"

text \<open>The three template texts of the fill-in-the-blank feedback (lines 288-293, 317-322).\<close>

definition fill_in_blank_template ::
  "rng \<Rightarrow> 't question \<Rightarrow> string \<Rightarrow> string \<Rightarrow> string option \<Rightarrow> string" where
  "fill_in_blank_template r question user_answer result_type original_explanation =
     (if result_type = ''correct''
      then choice r correct_starters @ '' You correctly filled in the blank with ''
           @ quoted (py_str (correct_answer question)) @ ''.''
      else if result_type = ''partial''
      then ''Your answer '' @ quoted user_answer @ '' is close to the correct answer ''
           @ quoted (py_str (correct_answer question)) @ ''. '' @ py_str original_explanation
      else choice r incorrect_starters @ '' The correct answer is ''
           @ quoted (py_str (correct_answer question)) @ ''. '' @ py_str original_explanation)"

definition generate_fill_in_blank_feedback ::
  "rng \<Rightarrow> llm_result option \<Rightarrow> 't question \<Rightarrow> string \<Rightarrow> string \<Rightarrow> string option
     \<Rightarrow> string option \<Rightarrow> 't feedback_result" where
  "generate_fill_in_blank_feedback r response question user_answer result_type
       original_explanation context_text =
     (case response of
        Some result \<Rightarrow>
          (let too_short = (llm_feedback result = [] \<or> length (llm_feedback result) < 20)
           in \<lparr>is_correct = (result_type = ''correct''),
               is_partial = Some (result_type = ''partial''),
               score_percentage = None,
               res_correct_answer =
                 Some (case correct_answer question of None \<Rightarrow> [] | Some a \<Rightarrow> a),
               res_key_points = None,
               res_explanation = original_explanation,
               enhanced_feedback =
                 (if too_short
                  then fill_in_blank_template r question user_answer result_type
                         original_explanation
                  else llm_feedback result),
               additional_resources =
                 (if too_short
                  then generate_fallback_resources r (take 50 (question_text question))
                  else llm_resources result),
               res_question_id = question_id question,
               res_timestamp_start = timestamp_start question,
               res_timestamp_end = timestamp_end question,
               res_video_id = video_id question\<rparr>)
      | None \<Rightarrow>
          \<lparr>is_correct = (result_type = ''correct''),
           is_partial = Some (result_type = ''partial''),
           score_percentage = None,
           res_correct_answer = correct_answer question,
           res_key_points = None,
           res_explanation = original_explanation,
           enhanced_feedback =
             fill_in_blank_template r question user_answer result_type original_explanation,
           additional_resources =
             generate_fallback_resources r (take 50 (question_text question)),
           res_question_id = question_id question,
           res_timestamp_start = timestamp_start question,
           res_timestamp_end = timestamp_end question,
           res_video_id = video_id question\<rparr>)"

text \<open>
  The keyword heuristic of the short-answer fallback (lines 462-472). A key point counts
  when one of its words of more than 3 characters, lower-cased, occurs in the lower-cased
  answer. \<open>int(matched_points / len(key_points) * 60)\<close> truncates a non-negative
  quotient; the quotient is taken exactly here, as \<open>(matched_points * 60) div len\<close>.
\<close>

definition keywords_of :: "string \<Rightarrow> string list" where
  "keywords_of point = map lower (filter (\<lambda>word. length word > 3) (split point))"

definition point_matches :: "string \<Rightarrow> string \<Rightarrow> bool" where
  "point_matches user_answer point \<longleftrightarrow>
     list_ex (\<lambda>keyword. sublist keyword (lower user_answer)) (keywords_of point)"

fun matched_points :: "string \<Rightarrow> string list \<Rightarrow> nat" where
  "matched_points user_answer [] = 0"
| "matched_points user_answer (point # points) =
     (if point_matches user_answer point then 1 else 0) + matched_points user_answer points"

definition keyword_score :: "string \<Rightarrow> string list \<Rightarrow> nat" where
  "keyword_score user_answer points =
     (let matched = matched_points user_answer points
      in if matched > 0 then min 70 ((matched * 60) div length points) else 0)"

definition evaluate_short_answer ::
  "rng \<Rightarrow> llm_result option \<Rightarrow> 't question \<Rightarrow> string \<Rightarrow> string option \<Rightarrow> string option
     \<Rightarrow> 't feedback_result" where
  "evaluate_short_answer r response question user_answer original_explanation context_text =
     (let question_topic = take 50 (question_text question)
      in if length (strip user_answer) < 5
            \<or> (isalpha (strip user_answer) \<and> length (strip user_answer) < 4)
         then
           \<lparr>is_correct = False,
            is_partial = Some False,
            score_percentage = Some 0,
            res_correct_answer = Some (sample_answer question),
            res_key_points = Some (key_points question),
            res_explanation = original_explanation,
            enhanced_feedback =
              ''Your answer is too brief to assess properly. A good response should include: ''
              @ join_with '', '' (key_points question) @ ''. '' @ py_str original_explanation,
            additional_resources = generate_fallback_resources r question_topic,
            res_question_id = question_id question,
            res_timestamp_start = timestamp_start question,
            res_timestamp_end = timestamp_end question,
            res_video_id = video_id question\<rparr>
         else
           (case response of
              Some result \<Rightarrow>
                (let score = llm_score result
                 in \<lparr>is_correct = (score \<ge> 75),
                     is_partial = Some (30 \<le> score \<and> score < 75),
                     score_percentage = Some score,
                     res_correct_answer = Some (sample_answer question),
                     res_key_points = Some (key_points question),
                     res_explanation = original_explanation,
                     enhanced_feedback = llm_feedback result,
                     additional_resources = llm_resources result,
                     res_question_id = question_id question,
                     res_timestamp_start = timestamp_start question,
                     res_timestamp_end = timestamp_end question,
                     res_video_id = video_id question\<rparr>)
            | None \<Rightarrow>
                (let score = (if length (strip user_answer) < 5 then 0
                              else keyword_score user_answer (key_points question));
                     feedback =
                       (if length (strip user_answer) < 5
                        then ''Your answer is too brief. A good response should include: ''
                             @ join_with '', '' (key_points question) @ ''. ''
                             @ py_str original_explanation
                        else ''Based on keyword matching, your answer addresses approximately ''
                             @ str_nat score
                             @ ''% of the key points. A complete answer should include: ''
                             @ join_with '', '' (key_points question) @ ''. ''
                             @ py_str original_explanation)
                 in \<lparr>is_correct = (score \<ge> 75),
                     is_partial = Some (30 \<le> score \<and> score < 75),
                     score_percentage = Some (int score),
                     res_correct_answer = Some (sample_answer question),
                     res_key_points = Some (key_points question),
                     res_explanation = original_explanation,
                     enhanced_feedback = feedback,
                     additional_resources =
                       generate_fallback_resources r (take 50 (question_text question)),
                     res_question_id = question_id question,
                     res_timestamp_start = timestamp_start question,
                     res_timestamp_end = timestamp_end question,
                     res_video_id = video_id question\<rparr>)))"

text \<open>
  The result type of a fill-in-the-blank answer (lines 73-85): both strings are stripped
  and lower-cased; an absent correct answer reads as the empty string.
\<close>

definition fill_in_blank_result_type :: "'t question \<Rightarrow> string \<Rightarrow> string" where
  "fill_in_blank_result_type question user_answer =
     (let user_answer_normalized = lower (strip user_answer);
          correct_answer_normalized =
            lower (strip (case correct_answer question of None \<Rightarrow> [] | Some a \<Rightarrow> a))
      in if user_answer_normalized = correct_answer_normalized then ''correct''
         else if sublist user_answer_normalized correct_answer_normalized
                 \<or> sublist correct_answer_normalized user_answer_normalized
         then ''partial''
         else ''incorrect'')"

text \<open>The dispatch on the item type; a missing or unknown type is multiple choice.\<close>

definition generate_feedback ::
  "rng \<Rightarrow> llm_result option \<Rightarrow> 't question \<Rightarrow> string \<Rightarrow> string option \<Rightarrow> string option
     \<Rightarrow> 't feedback_result" where
  "generate_feedback r response question user_answer original_explanation context_text =
     (let question_type = (case qtype question of None \<Rightarrow> ''multiple_choice'' | Some t \<Rightarrow> t)
      in if question_type = ''multiple_choice''
         then generate_multiple_choice_feedback r response question user_answer
                (Some user_answer = correct_answer question) original_explanation context_text
         else if question_type = ''fill_in_the_blank''
         then generate_fill_in_blank_feedback r response question user_answer
                (fill_in_blank_result_type question user_answer)
                original_explanation context_text
         else if question_type = ''short_answer''
         then evaluate_short_answer r response question user_answer original_explanation
                context_text
         else generate_multiple_choice_feedback r response question user_answer
                (Some user_answer = correct_answer question) original_explanation context_text)"

text \<open>
  The score formula as the specification words it, with rounding to the nearest integer:
  \<open>min(70, round(matched_key_points / total_key_points * 60))\<close>. It is used only to
  compare the specification's value with the code's, at an input where the quotient is
  not halfway between two integers, so the treatment of ties plays no part.
\<close>

definition spec_rounded_score :: "nat \<Rightarrow> nat \<Rightarrow> int" where
  "spec_rounded_score matched total_key_points =
     min 70 (round (rat_of_nat matched / rat_of_nat total_key_points * 60))"

section \<open>Sample inputs\<close>

text \<open>
  A fixed random source (always the first starter, the first resources), and sample
  items in the shape of the one in \<open>test_feedback_generator.py\<close>.
\<close>

definition first_rng :: rng where
  "first_rng = \<lparr>choice = hd, sample = (\<lambda>xs n. take n xs)\<rparr>"

definition sample_question :: "string \<Rightarrow> string option \<Rightarrow> string list \<Rightarrow> nat question" where
  "sample_question item_type answer points =
     \<lparr>qtype = Some item_type,
      question_id = ''test_question'',
      video_id = ''test_video_id'',
      timestamp_start = 10,
      timestamp_end = 60,
      question_text = ''What is machine learning?'',
      options = Some [(''A'', ''A type of computer hardware''),
                      (''B'', ''A field of study''),
                      (''C'', ''A programming language''),
                      (''D'', ''A database management system'')],
      correct_answer = answer,
      explanation = Some ''Machine learning is a field of study.'',
      sample_answer = ''It is a field of study.'',
      key_points = points\<rparr>"

definition sample_key_points :: "string list" where
  "sample_key_points =
     [''machine learning'', ''neural networks'', ''gradient descent'', ''decision trees'',
      ''random forests'', ''support vectors'', ''bayesian inference'']"

definition sample_chunks :: "nat chunk list" where
  "sample_chunks =
     map (\<lambda>t. \<lparr>start_index = 1, end_index = 5, start_time = t, end_time = t + 10,
               chunk_text = ''some transcript text'', segments = []\<rparr>) [0, 10, 20]"

text \<open>A service that always raises, and one that returns two questions per call.\<close>

definition failing_api :: "nat \<Rightarrow> string \<Rightarrow> nat \<Rightarrow> string \<Rightarrow> nat question list option" where
  "failing_api call text num_questions question_type = None"

definition generous_api :: "nat \<Rightarrow> string \<Rightarrow> nat \<Rightarrow> string \<Rightarrow> nat question list option" where
  "generous_api call text num_questions question_type =
     Some [sample_question ''multiple_choice'' (Some ''B'') [],
           sample_question ''multiple_choice'' (Some ''A'') []]"

section \<open>Question generation (question_generator.py)\<close>

text \<open>
  The generative service is an input of the model: \<open>api k text n item_type\<close> is the parsed
  \<open>questions\<close> list of the \<open>k\<close>-th call of a run (the calls of one run may answer
  differently), or \<open>None\<close> when the call or the parsing of its answer raises. Timestamps
  are printed into identifiers by Python's \<open>str\<close>; that function is the parameter
  \<open>fmt\<close>.
\<close>

definition fallback_multiple_choice :: "string \<Rightarrow> string \<Rightarrow> 't \<Rightarrow> 't \<Rightarrow> 't question" where
  "fallback_multiple_choice vid ts_str ts te =
     \<lparr>qtype = Some ''multiple_choice'',
      question_id = vid @ ''_'' @ ts_str @ ''_0'',
      video_id = vid,
      timestamp_start = ts,
      timestamp_end = te,
      question_text = ''What is the main concept discussed in this segment?'',
      options = Some [(''A'', ''Basic principles and terminology''),
                      (''B'', ''Advanced implementation details''),
                      (''C'', ''Historical context and development''),
                      (''D'', ''Comparison with alternative approaches'')],
      correct_answer = Some ''A'',
      explanation =
        Some ''The segment focuses primarily on introducing basic principles and terminology.'',
      sample_answer = [],
      key_points = []\<rparr>"

definition fallback_fill_in_the_blank :: "string \<Rightarrow> string \<Rightarrow> 't \<Rightarrow> 't \<Rightarrow> 't question" where
  "fallback_fill_in_the_blank vid ts_str ts te =
     \<lparr>qtype = Some ''fill_in_the_blank'',
      question_id = vid @ ''_'' @ ts_str @ ''_1'',
      video_id = vid,
      timestamp_start = ts,
      timestamp_end = te,
      question_text = ''The main topic discussed in this segment is _____.'',
      options = None,
      correct_answer = Some ''important concept'',
      explanation =
        Some ''This segment introduces an important concept central to understanding the topic.'',
      sample_answer = [],
      key_points = []\<rparr>"

definition fallback_short_answer :: "string \<Rightarrow> string \<Rightarrow> 't \<Rightarrow> 't \<Rightarrow> 't question" where
  "fallback_short_answer vid ts_str ts te =
     \<lparr>qtype = Some ''short_answer'',
      question_id = vid @ ''_'' @ ts_str @ ''_2'',
      video_id = vid,
      timestamp_start = ts,
      timestamp_end = te,
      question_text = ''Explain the main concept introduced in this segment.'',
      options = None,
      correct_answer = None,
      explanation =
        Some ''A good answer should identify the main concept and explain its importance.'',
      sample_answer =
        ''The main concept involves understanding the fundamental principles discussed in this segment.'',
      key_points = [''fundamental principles'', ''main concept'']\<rparr>"

text \<open>
  Lines 204-259. The list holds the items of the requested type (all three for
  \<open>mixed\<close>); the final slices are \<open>[:1]\<close>, \<open>[1:2]\<close> and \<open>[2:3]\<close> of that list.
\<close>

definition generate_fallback_questions ::
  "('t \<Rightarrow> string) \<Rightarrow> string \<Rightarrow> 't \<Rightarrow> 't \<Rightarrow> string \<Rightarrow> 't question list" where
  "generate_fallback_questions fmt vid ts te question_type =
     (let fallback_questions =
            (if question_type \<in> set [''multiple_choice'', ''mixed'']
             then [fallback_multiple_choice vid (fmt ts) ts te] else [])
            @ (if question_type \<in> set [''fill_in_the_blank'', ''mixed'']
               then [fallback_fill_in_the_blank vid (fmt ts) ts te] else [])
            @ (if question_type \<in> set [''short_answer'', ''mixed'']
               then [fallback_short_answer vid (fmt ts) ts te] else [])
      in if question_type = ''multiple_choice'' then take 1 fallback_questions
         else if question_type = ''fill_in_the_blank'' then take 1 (drop 1 fallback_questions)
         else if question_type = ''short_answer'' then take 1 (drop 2 fallback_questions)
         else fallback_questions)"

text \<open>The metadata and the default type written into the \<open>i\<close>-th parsed question.\<close>

definition add_metadata ::
  "('t \<Rightarrow> string) \<Rightarrow> string \<Rightarrow> 't \<Rightarrow> 't \<Rightarrow> nat \<Rightarrow> 't question \<Rightarrow> 't question" where
  "add_metadata fmt vid ts te i question =
     (let q = question\<lparr>question_id := vid @ ''_'' @ fmt ts @ ''_'' @ str_nat i,
                       video_id := vid,
                       timestamp_start := ts,
                       timestamp_end := te\<rparr>
      in if qtype q = None
         then q\<lparr>qtype := Some (if options q \<noteq> None then ''multiple_choice''
                               else if sublist ''___'' (question_text q)
                               then ''fill_in_the_blank''
                               else ''short_answer'')\<rparr>
         else q)"

definition generate_from_text ::
  "('t \<Rightarrow> string) \<Rightarrow> (nat \<Rightarrow> string \<Rightarrow> nat \<Rightarrow> string \<Rightarrow> 't question list option) \<Rightarrow> nat
     \<Rightarrow> string \<Rightarrow> string \<Rightarrow> 't \<Rightarrow> 't \<Rightarrow> nat \<Rightarrow> string \<Rightarrow> 't question list" where
  "generate_from_text fmt api call text vid ts te num_questions question_type =
     (case api call text num_questions question_type of
        Some questions \<Rightarrow>
          map (\<lambda>(i, question). add_metadata fmt vid ts te i question) (enumerate 0 questions)
      | None \<Rightarrow> generate_fallback_questions fmt vid ts te question_type)"

section \<open>Item assembly (app.py, generate_questions)\<close>

text \<open>
  The identifier format of \<open>generate_unique_question_id\<close> (line 54), which the assembly
  loops write inline as \<open>f"{video_id}_{chunk.get('start_time')}_{question_counter}"\<close>;
  the timestamp arrives printed.
\<close>

definition generate_unique_question_id :: "string \<Rightarrow> string \<Rightarrow> nat \<Rightarrow> string" where
  "generate_unique_question_id vid timestamp sequence_number =
     vid @ ''_'' @ timestamp @ ''_'' @ str_nat sequence_number"

text \<open>
  The state of one run: the accumulated list, the identifier counter (0 at the start,
  line 299) and the number of service calls made so far.
\<close>

record 't gen_state =
  generated_questions :: "'t question list"
  question_counter :: nat
  api_calls :: nat

definition initial_state :: "'t gen_state" where
  "initial_state = \<lparr>generated_questions = [], question_counter = 0, api_calls = 0\<rparr>"

text \<open>
  One loop body (lines 365-381, 395-409, 515-529, 548-562): one question is requested
  for the chunk, every returned question gets the next counter value in its identifier,
  and all of them are appended.
\<close>

definition add_chunk_questions ::
  "('t \<Rightarrow> string) \<Rightarrow> (nat \<Rightarrow> string \<Rightarrow> nat \<Rightarrow> string \<Rightarrow> 't question list option)
     \<Rightarrow> string \<Rightarrow> string \<Rightarrow> 't chunk \<Rightarrow> 't gen_state \<Rightarrow> 't gen_state" where
  "add_chunk_questions fmt api vid question_type chunk st =
     (let questions = generate_from_text fmt api (api_calls st) (chunk_text chunk) vid
                        (start_time chunk) (end_time chunk) 1 question_type;
          numbered = map (\<lambda>(k, q). q\<lparr>question_id :=
                            generate_unique_question_id vid (fmt (start_time chunk))
                              (question_counter st + k)\<rparr>)
                       (enumerate 0 questions)
      in \<lparr>generated_questions = generated_questions st @ numbered,
          question_counter = question_counter st + length questions,
          api_calls = api_calls st + 1\<rparr>)"

text \<open>The first loop of the YouTube branch (lines 363-385), with its \<open>break\<close>.\<close>

fun first_pass_indices ::
  "('t \<Rightarrow> string) \<Rightarrow> (nat \<Rightarrow> string \<Rightarrow> nat \<Rightarrow> string \<Rightarrow> 't question list option)
     \<Rightarrow> string \<Rightarrow> string \<Rightarrow> nat \<Rightarrow> 't chunk list \<Rightarrow> nat list \<Rightarrow> 't gen_state \<Rightarrow> 't gen_state" where
  "first_pass_indices fmt api vid question_type question_count chunks [] st = st"
| "first_pass_indices fmt api vid question_type question_count chunks (idx # rest) st =
     (if idx < length chunks
      then (let st' = add_chunk_questions fmt api vid question_type (chunks ! idx) st
            in if length (generated_questions st') \<ge> question_count then st'
               else first_pass_indices fmt api vid question_type question_count chunks rest st')
      else first_pass_indices fmt api vid question_type question_count chunks rest st)"

text \<open>The first loop of the subtitle branch (lines 513-533), with its \<open>break\<close>.\<close>

fun first_pass_chunks ::
  "('t \<Rightarrow> string) \<Rightarrow> (nat \<Rightarrow> string \<Rightarrow> nat \<Rightarrow> string \<Rightarrow> 't question list option)
     \<Rightarrow> string \<Rightarrow> string \<Rightarrow> nat \<Rightarrow> 't chunk list \<Rightarrow> 't gen_state \<Rightarrow> 't gen_state" where
  "first_pass_chunks fmt api vid question_type question_count [] st = st"
| "first_pass_chunks fmt api vid question_type question_count (chunk # rest) st =
     (let st' = add_chunk_questions fmt api vid question_type chunk st
      in if length (generated_questions st') \<ge> question_count then st'
         else first_pass_chunks fmt api vid question_type question_count rest st')"

text \<open>
  The second loops (lines 393-409, 547-562) run over the first
  \<open>min(remaining, len(indices))\<close> entries of an index list, without a \<open>break\<close>.
\<close>

definition second_pass ::
  "('t \<Rightarrow> string) \<Rightarrow> (nat \<Rightarrow> string \<Rightarrow> nat \<Rightarrow> string \<Rightarrow> 't question list option)
     \<Rightarrow> string \<Rightarrow> string \<Rightarrow> 't chunk list \<Rightarrow> nat list \<Rightarrow> nat \<Rightarrow> 't gen_state \<Rightarrow> 't gen_state" where
  "second_pass fmt api vid question_type chunks indices remaining st =
     foldl (\<lambda>s i. add_chunk_questions fmt api vid question_type (chunks ! (indices ! i)) s)
       st [0..<min remaining (length indices)]"

text \<open>Line 391: the chunk positions the first loop was not given.\<close>

definition unused_indices :: "nat \<Rightarrow> nat list \<Rightarrow> nat list" where
  "unused_indices n indices = filter (\<lambda>i. i \<notin> set indices) [0..<n]"

text \<open>
  The YouTube branch from the chunk list on (lines 331-412). An exception leaves the
  \<open>try\<close> block; the handler that follows it (lines 426-491) is not part of the model.
\<close>

definition youtube_questions ::
  "('t \<Rightarrow> string) \<Rightarrow> (nat \<Rightarrow> string \<Rightarrow> nat \<Rightarrow> string \<Rightarrow> 't question list option)
     \<Rightarrow> string \<Rightarrow> string \<Rightarrow> nat \<Rightarrow> 't chunk list \<Rightarrow> py_error + 't question list" where
  "youtube_questions fmt api vid question_type question_count chunks =
     (case chunk_indices (length chunks) question_count of
        Inl err \<Rightarrow> Inl err
      | Inr indices \<Rightarrow>
          (let st1 = first_pass_indices fmt api vid question_type question_count chunks
                       indices initial_state;
               st2 = (if length (generated_questions st1) < question_count \<and> length chunks > 0
                      then
                        (let remaining = question_count - length (generated_questions st1)
                         in second_pass fmt api vid question_type chunks
                              (unused_indices (length chunks) indices) remaining st1)
                      else st1)
           in Inr (take question_count (generated_questions st2))))"

text \<open>\<open>xs.index(x)\<close> for an \<open>x\<close> that occurs in \<open>xs\<close>: the first position holding an equal value.\<close>

fun index_of :: "'a list \<Rightarrow> 'a \<Rightarrow> nat" where
  "index_of [] x = 0"
| "index_of (y # ys) x = (if y = x then 0 else Suc (index_of ys x))"

text \<open>
  Lines 540-545: the positions of the chunks not used by the first loop, or all
  positions when none is left.
\<close>

definition available_indices :: "'a list \<Rightarrow> 'a list \<Rightarrow> nat list" where
  "available_indices topic_chunks chosen =
     (let used_indices = set (map (index_of topic_chunks)
                                (filter (\<lambda>chunk. chunk \<in> set topic_chunks) chosen));
          available = filter (\<lambda>i. i \<notin> used_indices) [0..<length topic_chunks]
      in if available = [] then [0..<length topic_chunks] else available)"

text \<open>
  The subtitle branch (lines 494-565). A video without topic chunks is answered with
  the error response 400.
\<close>

definition subtitle_questions ::
  "('t \<Rightarrow> string) \<Rightarrow> (nat \<Rightarrow> string \<Rightarrow> nat \<Rightarrow> string \<Rightarrow> 't question list option)
     \<Rightarrow> string \<Rightarrow> string \<Rightarrow> nat \<Rightarrow> 't chunk list \<Rightarrow> py_error + 't question list" where
  "subtitle_questions fmt api vid question_type question_count topic_chunks =
     (if topic_chunks = [] then Inl NoContentChunks
      else
        case selected_chunks topic_chunks question_count of
          Inl err \<Rightarrow> Inl err
        | Inr chosen \<Rightarrow>
            (let st1 = first_pass_chunks fmt api vid question_type question_count chosen
                         initial_state;
                 st2 = (if length (generated_questions st1) < question_count
                           \<and> length topic_chunks > 0
                        then
                          (let remaining = question_count - length (generated_questions st1)
                           in second_pass fmt api vid question_type topic_chunks
                                (available_indices topic_chunks chosen) remaining st1)
                        else st1)
             in Inr (take question_count (generated_questions st2))))"

text \<open>
  The identifiers of a question list follow the counter: the item at position \<open>i\<close>
  carries the video id, the printed start time of one of the chunks, and \<open>i\<close>.
\<close>

definition numbered_by_counter ::
  "('t \<Rightarrow> string) \<Rightarrow> string \<Rightarrow> 't chunk list \<Rightarrow> 't question list \<Rightarrow> bool" where
  "numbered_by_counter fmt vid chunks qs \<longleftrightarrow>
     list_all (\<lambda>i. list_ex (\<lambda>chunk. question_id (qs ! i)
                        = generate_unique_question_id vid (fmt (start_time chunk)) i) chunks)
       [0..<length qs]"

text \<open>What the assembly promises about its result.\<close>

definition assembly_ok ::
  "('t \<Rightarrow> string) \<Rightarrow> string \<Rightarrow> nat \<Rightarrow> 't chunk list \<Rightarrow> 't question list \<Rightarrow> bool" where
  "assembly_ok fmt vid target_count chunks qs \<longleftrightarrow>
     length qs \<le> target_count
     \<and> distinct (map question_id qs)
     \<and> numbered_by_counter fmt vid chunks qs"

text \<open>
  The loop invariant of the assembly: the counter equals the number of accumulated items,
  and their identifiers follow the counter.
\<close>

definition state_ok ::
  "('t \<Rightarrow> string) \<Rightarrow> string \<Rightarrow> 't chunk list \<Rightarrow> 't gen_state \<Rightarrow> bool" where
  "state_ok fmt vid chunks st \<longleftrightarrow>
     question_counter st = length (generated_questions st)
     \<and> numbered_by_counter fmt vid chunks (generated_questions st)"

section \<open>The requested question count (app.py, lines 272-284)\<close>

text \<open>
  The value of the key \<open>question_count\<close> in the request body, as the JSON parser
  delivers it. A float is a finite rational, a NaN or an infinity (the parser reads
  \<open>1e999\<close> as infinity). Arrays and objects stand for themselves: \<open>int\<close> rejects both
  whatever they hold.
\<close>

datatype py_float = Finite rat | NaN | PosInf | NegInf

datatype json = JNull | JBool bool | JInt int | JFloat py_float | JStr string | JArray | JObject

definition is_digit :: "char \<Rightarrow> bool" where
  "is_digit c \<longleftrightarrow> 48 \<le> (of_char c :: nat) \<and> (of_char c :: nat) \<le> 57"

text \<open>Decimal digits, with single underscores allowed between two digits.\<close>

fun valid_digits :: "string \<Rightarrow> bool" where
  "valid_digits [] = False"
| "valid_digits [c] = is_digit c"
| "valid_digits (c # d # cs) =
     (is_digit c
      \<and> (if d = CHR ''_'' then cs \<noteq> [] \<and> valid_digits cs else valid_digits (d # cs)))"

definition digits_value :: "string \<Rightarrow> int" where
  "digits_value s = foldl (\<lambda>acc c. 10 * acc + (of_char c - 48)) 0 (filter is_digit s)"

text \<open>
  \<open>int(s)\<close> for a string: surrounding whitespace is dropped, one sign may lead.
  \<open>None\<close> stands for ValueError. (The interpreter's limit on the number of digits is
  left out; it turns a number far above 20 into a ValueError.)
\<close>

definition int_of_string :: "string \<Rightarrow> int option" where
  "int_of_string s =
     (let t = strip s;
          negative = (t \<noteq> [] \<and> hd t = CHR ''-'');
          body = (if t \<noteq> [] \<and> (hd t = CHR ''-'' \<or> hd t = CHR ''+'') then tl t else t)
      in if valid_digits body
         then Some (if negative then - digits_value body else digits_value body)
         else None)"

text \<open>\<open>int(x)\<close> for a parsed JSON value; a float is truncated toward zero.\<close>

definition py_int :: "json \<Rightarrow> py_error + int" where
  "py_int v =
     (case v of
        JNull \<Rightarrow> Inl TypeError
      | JBool b \<Rightarrow> Inr (if b then 1 else 0)
      | JInt i \<Rightarrow> Inr i
      | JFloat f \<Rightarrow>
          (case f of
             Finite x \<Rightarrow> Inr (if x \<ge> 0 then \<lfloor>x\<rfloor> else \<lceil>x\<rceil>)
           | NaN \<Rightarrow> Inl ValueError
           | PosInf \<Rightarrow> Inl OverflowError
           | NegInf \<Rightarrow> Inl OverflowError)
      | JStr s \<Rightarrow> (case int_of_string s of None \<Rightarrow> Inl ValueError | Some i \<Rightarrow> Inr i)
      | JArray \<Rightarrow> Inl TypeError
      | JObject \<Rightarrow> Inl TypeError)"

text \<open>
  Lines 274-284: \<open>data.get('question_count', 10)\<close>, then the clamp inside
  \<open>try ... except (ValueError, TypeError)\<close>. Any other exception leaves the function.
  The result is the \<open>question_count\<close> both branches work with.
\<close>

definition clamp_question_count :: "json option \<Rightarrow> py_error + int" where
  "clamp_question_count requested =
     (let question_count = (case requested of None \<Rightarrow> JInt 10 | Some v \<Rightarrow> v)
      in case py_int question_count of
           Inr n \<Rightarrow> Inr (if n < 10 then 10 else if n > 20 then 20 else n)
         | Inl err \<Rightarrow>
             (if err = ValueError \<or> err = TypeError then Inr 10 else Inl err))"

section \<open>Properties of the chunk selection\<close>

lemma stride_indices_sorted:
  fixes step :: nat
  assumes "0 < step"
  shows "sorted_wrt (<) (map (\<lambda>i. i * step) [0..<k])"
proof -
  have "sorted_wrt (\<lambda>a b. a * step < b * step) [0..<k]"
    using assms by (intro sorted_wrt_mono_rel [OF _ sorted_wrt_upt]) simp
  then show ?thesis by (simp add: sorted_wrt_map)
qed

lemma stride_indices_bound:
  fixes n t i :: nat
  assumes "t < n" "0 < t" "i < t"
  shows "i * (n div t) < n"
proof -
  have "0 < n div t" using assms(1,2) by (simp add: div_greater_zero_iff)
  with assms(3) have "i * (n div t) < t * (n div t)" by simp
  also have "\<dots> \<le> n" by simp
  finally show ?thesis .
qed

lemma stride_selection_ok:
  assumes "t < n" "0 < t"
  shows "selection_ok n t (map (\<lambda>i. i * (n div t)) [0..<t])"
proof -
  have "0 < n div t" using assms by (simp add: div_greater_zero_iff)
  then have "sorted_wrt (<) (map (\<lambda>i. i * (n div t)) [0..<t])"
    by (rule stride_indices_sorted)
  moreover have "list_all (\<lambda>i. i < n) (map (\<lambda>i. i * (n div t)) [0..<t])"
    using assms by (auto simp: list_all_iff intro: stride_indices_bound)
  ultimately show ?thesis using assms by (simp add: selection_ok_def)
qed

lemma upt_selection_ok:
  assumes "n \<le> t"
  shows "selection_ok n t [0..<n]"
  using assms by (simp add: selection_ok_def list_all_iff)

lemma chunk_indices_stride:
  assumes "t < n" "0 < t"
  shows "chunk_indices n t = Inr (map (\<lambda>i. i * (n div t)) [0..<t])"
proof -
  have "sorted (map (\<lambda>i. i * (n div t)) [0..<t])"
    using stride_selection_ok [OF assms]
    by (simp add: selection_ok_def strict_sorted_imp_sorted)
  then have "sort (map (\<lambda>i. i * (n div t)) [0..<t]) = map (\<lambda>i. i * (n div t)) [0..<t]"
    by (rule sorted_sort_id)
  then show ?thesis using assms by (simp add: chunk_indices_def Let_def)
qed

lemma selected_indices_stride:
  assumes "t < n" "0 < t"
  shows "selected_indices n t = map (\<lambda>i. i * (n div t)) [0..<t]"
  using stride_selection_ok [OF assms]
  by (simp add: selected_indices_def Let_def selection_ok_def list_all_iff)

text \<open>
  Claim C1. For every chunk count and every target count of at least 1, the selection
  returns an index list of length \<open>min chunk_count target_count\<close> that is strictly
  increasing and stays below \<open>chunk_count\<close>. This holds for the index list of the
  YouTube branch and for the chunks the subtitle branch looks up; and
  \<open>select(8, 4) = [0, 2, 4, 6]\<close>, \<open>select(3, 10) = [0, 1, 2]\<close>, \<open>select(0, 5) = []\<close>.
\<close>

theorem chunk_selection_length_increasing_bounded:
  "(1 \<le> target_count \<longrightarrow>
      (\<exists>xs. chunk_indices chunk_count target_count = Inr xs
            \<and> selection_ok chunk_count target_count xs)
    \<and> (\<forall>topic_chunks :: 'a list. length topic_chunks = chunk_count \<longrightarrow>
          (\<exists>ys. selected_chunks topic_chunks target_count = Inr (map (\<lambda>i. topic_chunks ! i) ys)
                \<and> selection_ok chunk_count target_count ys)))
   \<and> chunk_indices 8 4 = Inr [0, 2, 4, 6]
   \<and> chunk_indices 3 10 = Inr [0, 1, 2]
   \<and> chunk_indices 0 5 = Inr []"
proof (intro conjI impI allI)
  assume t: "1 \<le> target_count"
  show "\<exists>xs. chunk_indices chunk_count target_count = Inr xs
            \<and> selection_ok chunk_count target_count xs"
  proof (cases "chunk_count \<le> target_count")
    case True
    then show ?thesis by (simp add: chunk_indices_def upt_selection_ok)
  next
    case False
    with t have "target_count < chunk_count" "0 < target_count" by simp_all
    then show ?thesis by (simp add: chunk_indices_stride stride_selection_ok)
  qed
next
  fix topic_chunks :: "'a list"
  assume t: "1 \<le> target_count" and n: "length topic_chunks = chunk_count"
  show "\<exists>ys. selected_chunks topic_chunks target_count = Inr (map (\<lambda>i. topic_chunks ! i) ys)
            \<and> selection_ok chunk_count target_count ys"
  proof (cases "chunk_count \<le> target_count")
    case True
    with n have "selected_chunks topic_chunks target_count
                   = Inr (map (\<lambda>i. topic_chunks ! i) [0..<chunk_count])"
      by (auto simp: selected_chunks_def map_nth)
    with True show ?thesis using upt_selection_ok by blast
  next
    case False
    with t have *: "target_count < chunk_count" "0 < target_count" by simp_all
    with n have "selected_chunks topic_chunks target_count
                   = Inr (map (\<lambda>i. topic_chunks ! i)
                            (map (\<lambda>i. i * (chunk_count div target_count)) [0..<target_count]))"
      by (simp add: selected_chunks_def selected_indices_stride)
    with * show ?thesis using stride_selection_ok by blast
  qed
next
  show "chunk_indices 8 4 = Inr [0, 2, 4, 6]" by code_simp
  show "chunk_indices 3 10 = Inr [0, 1, 2]" by code_simp
  show "chunk_indices 0 5 = Inr []" by code_simp
qed

theorem chunk_selection_witness:
  "(\<exists>xs. chunk_indices 23 10 = Inr xs \<and> selection_ok 23 10 xs)
   \<and> (\<exists>ys. selected_chunks ''abcdefghijklmnopqrstuvw'' 10
              = Inr (map (\<lambda>i. ''abcdefghijklmnopqrstuvw'' ! i) ys)
          \<and> selection_ok 23 10 ys)
   \<and> chunk_indices 23 10 = Inr [0, 2, 4, 6, 8, 10, 12, 14, 16, 18]
   \<and> selected_chunks ''abcdefghijklmnopqrstuvw'' 10 = Inr ''acegikmoqs''"
proof -
  have len: "length ''abcdefghijklmnopqrstuvw'' = 23" by simp
  have t: "(1::nat) \<le> 10" by simp
  have "chunk_indices 23 10 = Inr [0, 2, 4, 6, 8, 10, 12, 14, 16, 18]" by code_simp
  moreover have "selected_chunks ''abcdefghijklmnopqrstuvw'' 10 = Inr ''acegikmoqs''" by code_simp
  ultimately show ?thesis
    using chunk_selection_length_increasing_bounded [of 10 23, where ?'a = char] t len by blast
qed
section \<open>Properties of the segmenter\<close>

lemma segments_make_group [simp]: "segments (make_group c) = c"
  by (simp add: make_group_def)

lemma is_group_make_group [simp]: "is_group (make_group c)"
  by (simp add: is_group_def)

lemma is_group_fields:
  assumes "is_group g"
  shows "chunk_text g = join_with '' '' (map seg_text (segments g))"
    and "end_time g = seg_end_time (last (segments g))"
    and "start_time g = seg_start_time (hd (segments g))"
proof -
  obtain c where g: "g = make_group c" using assms unfolding is_group_def ..
  show "chunk_text g = join_with '' '' (map seg_text (segments g))"
    and "end_time g = seg_end_time (last (segments g))"
    and "start_time g = seg_start_time (hd (segments g))"
    unfolding g by (simp_all add: make_group_def)
qed

lemma group_loop_windows:
  assumes "0 < w" "i \<le> length segs" "windows_ok w (take i segs) groups"
     "list_all (\<lambda>g. length (segments g) = w) groups"
  shows "windows_ok w segs (group_loop segs w i groups)"
  using assms
proof (induction segs w i groups rule: group_loop.induct)
  case (1 segs w i groups)
  show ?case
  proof (cases "length segs \<le> i")
    case True
    then have "group_loop segs w i groups = groups"
      by (subst group_loop.simps) simp
    moreover from True "1.prems"(2) have "take i segs = segs" by simp
    ultimately show ?thesis using "1.prems"(3) by simp
  next
    case False
    define c where "c = take w (drop i segs)"
    have c0: "0 < length c" using False "1.prems" by (simp add: c_def)
    have cw: "length c \<le> w" by (simp add: c_def)
    have step: "group_loop segs w i groups = group_loop segs w (i + w) (groups @ [make_group c])"
      using False "1.prems"(1) c0 by (subst group_loop.simps) (simp add: c_def Let_def)
    have tk: "take (i + w) segs = take i segs @ c"
      by (simp add: c_def take_add)
    have ok': "windows_ok w (take (i + w) segs) (groups @ [make_group c])"
      using "1.prems"(3,4) c0 cw by (simp add: windows_ok_def tk)
    show ?thesis
    proof (cases "i + w \<le> length segs")
      case True
      then have "length c = w" by (simp add: c_def)
      with "1.prems"(4) have full: "list_all (\<lambda>g. length (segments g) = w) (groups @ [make_group c])"
        by simp
      have "windows_ok w segs (group_loop segs w (i + w) (groups @ [make_group c]))"
        using "1.IH" [OF _ refl, of ] False "1.prems"(1) True ok' full c0 by (simp add: c_def)
      then show ?thesis by (simp add: step)
    next
      case False
      then have "group_loop segs w (i + w) (groups @ [make_group c]) = groups @ [make_group c]"
        by (subst group_loop.simps) simp
      moreover from False have "take (i + w) segs = segs" by simp
      ultimately show ?thesis using ok' by (simp add: step)
    qed
  qed
qed

lemma group_loop_twelve:
  assumes "length segs = 12"
  shows "group_loop segs 5 0 [] =
           [make_group (take 5 segs), make_group (take 5 (drop 5 segs)),
            make_group (take 5 (drop 10 segs))]"
proof -
  from assms have "segs \<noteq> []" by auto
  with assms show ?thesis by (simp add: group_loop.simps [of segs 5] Let_def)
qed

text \<open>
  Claim C8. With the window size 5, the segmenter cuts any segment list into consecutive,
  non-overlapping windows: the chunks' segment lists concatenate to the input, every chunk
  but the last holds exactly 5 segments and the last between 1 and 5; each chunk's text
  is the space-joined text of its segments in order and its end time is the end time of
  its last segment. Twelve segments give three chunks of sizes 5, 5, 2; no segments
  give no chunks. The function returns a chunk list on every input.
\<close>

theorem segmenter_windows_of_five:
  "\<exists>gs. group_by_topic segs 5 = Inr gs
      \<and> concat (map segments gs) = segs
      \<and> list_all (\<lambda>g. length (segments g) = 5) (butlast gs)
      \<and> list_all (\<lambda>g. 0 < length (segments g) \<and> length (segments g) \<le> 5
              \<and> chunk_text g = join_with '' '' (map seg_text (segments g))
              \<and> end_time g = seg_end_time (last (segments g))) gs
      \<and> (length segs = 12 \<longrightarrow> map (\<lambda>g. length (segments g)) gs = [5, 5, 2])
      \<and> group_by_topic ([] :: 't segment list) 5 = Inr []"
proof -
  define gs where "gs = group_loop segs 5 0 []"
  have run: "group_by_topic segs 5 = Inr gs"
    by (simp add: group_by_topic_def gs_def)
  have "windows_ok 5 segs gs"
    unfolding gs_def by (rule group_loop_windows) (simp_all add: windows_ok_def)
  then have part: "concat (map segments gs) = segs"
    and full: "list_all (\<lambda>g. length (segments g) = 5) (butlast gs)"
    and each: "list_all (\<lambda>g. 0 < length (segments g) \<and> length (segments g) \<le> 5
                  \<and> is_group g) gs"
    by (simp_all add: windows_ok_def)
  have fields: "list_all (\<lambda>g. 0 < length (segments g) \<and> length (segments g) \<le> 5
              \<and> chunk_text g = join_with '' '' (map seg_text (segments g))
              \<and> end_time g = seg_end_time (last (segments g))) gs"
    using each by (simp add: list_all_iff is_group_fields)
  have twelve: "length segs = 12 \<longrightarrow> map (\<lambda>g. length (segments g)) gs = [5, 5, 2]"
  proof
    assume "length segs = 12"
    then have "gs = [make_group (take 5 segs), make_group (take 5 (drop 5 segs)),
                     make_group (take 5 (drop 10 segs))]"
      unfolding gs_def by (rule group_loop_twelve)
    with \<open>length segs = 12\<close> show "map (\<lambda>g. length (segments g)) gs = [5, 5, 2]"
      by simp
  qed
  have empty: "group_by_topic ([] :: 't segment list) 5 = Inr []"
  proof -
    have "group_loop ([] :: 't segment list) 5 0 [] = []"
      by (subst group_loop.simps) simp
    then show ?thesis by (simp add: group_by_topic_def)
  qed
  show ?thesis
    by (rule exI [of _ gs]) (intro conjI run part full fields twelve empty)
qed

theorem segmenter_windows_witness:
  "length (map (\<lambda>i. \<lparr>seg_index = int i, seg_text = ''w'', seg_start_time = i,
                       seg_end_time = Suc i, seg_start_time_str = [],
                       seg_end_time_str = []\<rparr>) [1..<13]) = 12
   \<and> (\<exists>gs. group_by_topic
               (map (\<lambda>i. \<lparr>seg_index = int i, seg_text = ''w'', seg_start_time = i,
                       seg_end_time = Suc i, seg_start_time_str = [],
                       seg_end_time_str = []\<rparr>) [1..<13]) 5 = Inr gs
          \<and> map (\<lambda>g. length (segments g)) gs = [5, 5, 2]
          \<and> map end_time gs = [6, 11, 13]
          \<and> map chunk_text gs = [''w w w w w'', ''w w w w w'', ''w w''])"
proof -
  define segs :: "nat segment list" where
    "segs = map (\<lambda>i. \<lparr>seg_index = int i, seg_text = ''w'', seg_start_time = i,
                       seg_end_time = Suc i, seg_start_time_str = [],
                       seg_end_time_str = []\<rparr>) [1..<13]"
  have len: "length segs = 12" by (simp add: segs_def)
  obtain gs where run: "group_by_topic segs 5 = Inr gs"
    and sizes: "length segs = 12 \<longrightarrow> map (\<lambda>g. length (segments g)) gs = [5, 5, 2]"
    using segmenter_windows_of_five [of segs] by auto
  have val: "group_by_topic segs 5 =
      Inr [make_group (take 5 segs), make_group (take 5 (drop 5 segs)),
           make_group (take 5 (drop 10 segs))]"
    by (simp add: group_by_topic_def group_loop_twelve [OF len])
  have ends: "map end_time gs = [6, 11, 13]"
    using run unfolding val by (auto simp: make_group_def segs_def upt_rec)
  have texts: "map chunk_text gs = [''w w w w w'', ''w w w w w'', ''w w'']"
    using run unfolding val by (auto simp: make_group_def segs_def upt_rec)
  from sizes len have "map (\<lambda>g. length (segments g)) gs = [5, 5, 2]" by simp
  with run ends texts have "\<exists>gs. group_by_topic segs 5 = Inr gs
          \<and> map (\<lambda>g. length (segments g)) gs = [5, 5, 2]
          \<and> map end_time gs = [6, 11, 13]
          \<and> map chunk_text gs = [''w w w w w'', ''w w w w w'', ''w w'']"
    by (intro exI [of _ gs] conjI)
  with len show ?thesis unfolding segs_def by (rule conjI)
qed
section \<open>Properties of the evaluator\<close>

lemma mc_fields:
  "is_correct (generate_multiple_choice_feedback r response q ua b e c) = b"
  "is_partial (generate_multiple_choice_feedback r response q ua b e c) = None"
  "score_percentage (generate_multiple_choice_feedback r response q ua b e c) = None"
  by (simp_all add: generate_multiple_choice_feedback_def Let_def split: option.split)

lemma fib_fields:
  "is_correct (generate_fill_in_blank_feedback r response q ua rt e c) = (rt = ''correct'')"
  "is_partial (generate_fill_in_blank_feedback r response q ua rt e c) = Some (rt = ''partial'')"
  "score_percentage (generate_fill_in_blank_feedback r response q ua rt e c) = None"
  by (simp_all add: generate_fill_in_blank_feedback_def Let_def split: option.split)

lemma generate_feedback_mc:
  assumes "qtype q = Some ''multiple_choice''"
  shows "generate_feedback r response q ua e c =
           generate_multiple_choice_feedback r response q ua (Some ua = correct_answer q) e c"
  using assms by (simp add: generate_feedback_def)

lemma generate_feedback_fib:
  assumes "qtype q = Some ''fill_in_the_blank''"
  shows "generate_feedback r response q ua e c =
           generate_fill_in_blank_feedback r response q ua (fill_in_blank_result_type q ua) e c"
  using assms by (simp add: generate_feedback_def)

lemma generate_feedback_short:
  assumes "qtype q = Some ''short_answer''"
  shows "generate_feedback r response q ua e c = evaluate_short_answer r response q ua e c"
  using assms by (simp add: generate_feedback_def)

lemma strip_all_space:
  assumes "list_all is_space s"
  shows "strip s = []"
proof -
  from assms have d: "dropWhile is_space s = []"
    by (simp add: dropWhile_eq_Nil_conv list_all_iff)
  show ?thesis unfolding strip_def d by simp
qed

text \<open>
  Claim C7. For a multiple-choice item, \<open>is_correct\<close> holds exactly when the user answer
  equals the item's \<open>correct_answer\<close> option id, character for character; the option
  texts play no part and the result has no \<open>is_partial\<close> entry. With the correct answer
  \<open>B\<close>, the answer \<open>b\<close> is not correct.
\<close>

theorem multiple_choice_exact_match:
  "(qtype q = Some ''multiple_choice'' \<longrightarrow>
      (is_correct (generate_feedback r response q user_answer e c)
         \<longleftrightarrow> correct_answer q = Some user_answer)
      \<and> is_partial (generate_feedback r response q user_answer e c) = None)
   \<and> \<not> is_correct (generate_feedback r response
            (q\<lparr>qtype := Some ''multiple_choice'', correct_answer := Some ''B''\<rparr>) ''b'' e c)"
  by (auto simp: generate_feedback_mc mc_fields)

theorem multiple_choice_witness:
  "qtype (sample_question ''multiple_choice'' (Some ''B'') []) = Some ''multiple_choice''
   \<and> is_correct (generate_feedback first_rng None
         (sample_question ''multiple_choice'' (Some ''B'') []) ''B'' None None)
   \<and> \<not> is_correct (generate_feedback first_rng None
         (sample_question ''multiple_choice'' (Some ''B'') []) ''A field of study'' None None)
   \<and> is_partial (generate_feedback first_rng None
         (sample_question ''multiple_choice'' (Some ''B'') []) ''B'' None None) = None"
proof -
  have t: "qtype (sample_question ''multiple_choice'' (Some ''B'') []) = Some ''multiple_choice''"
    and a: "correct_answer (sample_question ''multiple_choice'' (Some ''B'') []) = Some ''B''"
    by (simp_all add: sample_question_def)
  show ?thesis
    using t a
      multiple_choice_exact_match [of "sample_question ''multiple_choice'' (Some ''B'') []"
        first_rng None "''B''" None None]
      multiple_choice_exact_match [of "sample_question ''multiple_choice'' (Some ''B'') []"
        first_rng None "''A field of study''" None None]
    by simp
qed

text \<open>
  Claim C3. For a fill-in-the-blank item both the user answer and the item's correct
  answer are stripped and lower-cased. Equal normal forms give the state correct;
  otherwise, if one normal form occurs inside the other, the state is partial; otherwise
  incorrect. \<open>is_correct\<close> holds exactly in the first state and \<open>is_partial\<close> exactly in
  the second. With the correct answer \<open>photosynthesis\<close>, the answer \<open>photo\<close> is partial
  and not correct.
\<close>

theorem fill_in_blank_three_states:
  "(qtype q = Some ''fill_in_the_blank'' \<longrightarrow>
      (let u = lower (strip user_answer);
           a = lower (strip (case correct_answer q of None \<Rightarrow> [] | Some s \<Rightarrow> s));
           res = generate_feedback r response q user_answer e c
       in (is_correct res \<longleftrightarrow> u = a)
          \<and> is_partial res = Some (u \<noteq> a \<and> (sublist u a \<or> sublist a u))))
   \<and> is_partial (generate_feedback r response
          (q\<lparr>qtype := Some ''fill_in_the_blank'', correct_answer := Some ''photosynthesis''\<rparr>)
          ''photo'' e c) = Some True
   \<and> \<not> is_correct (generate_feedback r response
          (q\<lparr>qtype := Some ''fill_in_the_blank'', correct_answer := Some ''photosynthesis''\<rparr>)
          ''photo'' e c)"
proof (intro conjI impI)
  assume t: "qtype q = Some ''fill_in_the_blank''"
  show "let u = lower (strip user_answer);
           a = lower (strip (case correct_answer q of None \<Rightarrow> [] | Some s \<Rightarrow> s));
           res = generate_feedback r response q user_answer e c
       in (is_correct res \<longleftrightarrow> u = a)
          \<and> is_partial res = Some (u \<noteq> a \<and> (sublist u a \<or> sublist a u))"
    by (simp add: generate_feedback_fib [OF t] fib_fields fill_in_blank_result_type_def Let_def)
next
  have rt: "fill_in_blank_result_type
          (q\<lparr>qtype := Some ''fill_in_the_blank'', correct_answer := Some ''photosynthesis''\<rparr>)
          ''photo'' = ''partial''"
  proof -
    have "lower (strip ''photo'') = ''photo''" by code_simp
    moreover have "lower (strip ''photosynthesis'') = ''photosynthesis''" by code_simp
    moreover have "sublist ''photo'' ''photosynthesis''" by code_simp
    ultimately show ?thesis by (simp add: fill_in_blank_result_type_def)
  qed
  show "is_partial (generate_feedback r response
          (q\<lparr>qtype := Some ''fill_in_the_blank'', correct_answer := Some ''photosynthesis''\<rparr>)
          ''photo'' e c) = Some True"
    by (simp add: generate_feedback_fib fib_fields rt)
  show "\<not> is_correct (generate_feedback r response
          (q\<lparr>qtype := Some ''fill_in_the_blank'', correct_answer := Some ''photosynthesis''\<rparr>)
          ''photo'' e c)"
    by (simp add: generate_feedback_fib fib_fields rt)
qed

theorem fill_in_blank_witness:
  "qtype (sample_question ''fill_in_the_blank'' (Some ''Photosynthesis'') [])
     = Some ''fill_in_the_blank''
   \<and> is_correct (generate_feedback first_rng None
         (sample_question ''fill_in_the_blank'' (Some ''Photosynthesis'') [])
         '' photoSYNTHESIS  '' None None)
   \<and> is_partial (generate_feedback first_rng None
         (sample_question ''fill_in_the_blank'' (Some ''Photosynthesis'') [])
         '' photoSYNTHESIS  '' None None) = Some False
   \<and> \<not> is_correct (generate_feedback first_rng None
         (sample_question ''fill_in_the_blank'' (Some ''Photosynthesis'') [])
         ''the process of photosynthesis'' None None)
   \<and> is_partial (generate_feedback first_rng None
         (sample_question ''fill_in_the_blank'' (Some ''Photosynthesis'') [])
         ''the process of photosynthesis'' None None) = Some True
   \<and> \<not> is_correct (generate_feedback first_rng None
         (sample_question ''fill_in_the_blank'' (Some ''Photosynthesis'') [])
         ''respiration'' None None)
   \<and> is_partial (generate_feedback first_rng None
         (sample_question ''fill_in_the_blank'' (Some ''Photosynthesis'') [])
         ''respiration'' None None) = Some False"
proof -
  let ?q = "sample_question ''fill_in_the_blank'' (Some ''Photosynthesis'') []"
  have t: "qtype ?q = Some ''fill_in_the_blank''"
    and a: "correct_answer ?q = Some ''Photosynthesis''"
    by (simp_all add: sample_question_def)
  have n0: "lower (strip ''Photosynthesis'') = ''photosynthesis''" by code_simp
  have n1: "lower (strip '' photoSYNTHESIS  '') = ''photosynthesis''" by code_simp
  have n2: "lower (strip ''the process of photosynthesis'') = ''the process of photosynthesis''"
    by code_simp
  have n3: "lower (strip ''respiration'') = ''respiration''" by code_simp
  have s2: "sublist ''photosynthesis'' ''the process of photosynthesis''" by code_simp
  have s3: "\<not> sublist ''photosynthesis'' ''respiration''"
    "\<not> sublist ''respiration'' ''photosynthesis''" by code_simp+
  show ?thesis
    using t
      fill_in_blank_three_states [of ?q "'' photoSYNTHESIS  ''" first_rng None None None]
      fill_in_blank_three_states [of ?q "''the process of photosynthesis''" first_rng None None None]
      fill_in_blank_three_states [of ?q "''respiration''" first_rng None None None]
    by (simp add: a n0 n1 n2 n3 s2 s3 Let_def)
qed

text \<open>
  Claim C9. For a fill-in-the-blank item whose correct answer has a non-empty normal
  form, a user answer that is empty or all whitespace is partial and not correct: its
  normal form is the empty string, which occurs inside every string.
\<close>

theorem fill_in_blank_blank_answer_partial:
  assumes "qtype q = Some ''fill_in_the_blank''"
    and "list_all is_space user_answer"
    and "lower (strip (case correct_answer q of None \<Rightarrow> [] | Some s \<Rightarrow> s)) \<noteq> []"
  shows "is_partial (generate_feedback r response q user_answer e c) = Some True
         \<and> \<not> is_correct (generate_feedback r response q user_answer e c)"
proof -
  have u: "lower (strip user_answer) = []"
    using assms(2) by (simp add: strip_all_space lower_def)
  with assms(3) have "fill_in_blank_result_type q user_answer = ''partial''"
    by (auto simp: fill_in_blank_result_type_def Let_def)
  then show ?thesis
    by (simp add: generate_feedback_fib [OF assms(1)] fib_fields)
qed

theorem fill_in_blank_blank_answer_witness:
  "qtype (sample_question ''fill_in_the_blank'' (Some ''Photosynthesis'') [])
     = Some ''fill_in_the_blank''
   \<and> list_all is_space ''   ''
   \<and> lower (strip (case correct_answer
                (sample_question ''fill_in_the_blank'' (Some ''Photosynthesis'') [])
              of None \<Rightarrow> [] | Some s \<Rightarrow> s)) \<noteq> []
   \<and> is_partial (generate_feedback first_rng None
         (sample_question ''fill_in_the_blank'' (Some ''Photosynthesis'') [])
         ''   '' None None) = Some True
   \<and> \<not> is_correct (generate_feedback first_rng None
         (sample_question ''fill_in_the_blank'' (Some ''Photosynthesis'') [])
         ''   '' None None)"
proof -
  let ?q = "sample_question ''fill_in_the_blank'' (Some ''Photosynthesis'') []"
  have t: "qtype ?q = Some ''fill_in_the_blank''"
    by (simp add: sample_question_def)
  have sp: "list_all is_space ''   ''" by code_simp
  have "lower (strip ''Photosynthesis'') = ''photosynthesis''" by code_simp
  then have a: "lower (strip (case correct_answer ?q of None \<Rightarrow> [] | Some s \<Rightarrow> s)) \<noteq> []"
    by (simp add: sample_question_def)
  from fill_in_blank_blank_answer_partial [OF t sp a, of first_rng None None None] t sp a
  show ?thesis by simp
qed

section \<open>Properties of the short-answer evaluation\<close>

lemma matched_points_filter:
  "matched_points ua points = length (filter (point_matches ua) points)"
  by (induction points) simp_all

lemma matched_points_le: "matched_points ua points \<le> length points"
  by (simp add: matched_points_filter)

lemma point_matches_words:
  "point_matches ua point \<longleftrightarrow>
     (\<exists>word \<in> set (split point). 3 < length word \<and> sublist (lower word) (lower ua))"
  by (auto simp: point_matches_def keywords_of_def list_ex_iff)

lemma scaled_share_le:
  fixes m n :: nat
  assumes "m \<le> n"
  shows "(m * 60) div n \<le> 60"
proof (cases "n = 0")
  case True
  then show ?thesis by simp
next
  case False
  from assms have "m * 60 \<le> 60 * n" by simp
  then have "(m * 60) div n \<le> (60 * n) div n" by (rule div_le_mono)
  with False show ?thesis by simp
qed

lemma keyword_score_le: "keyword_score ua points \<le> 60"
  using scaled_share_le [OF matched_points_le [of ua points]]
  by (simp add: keyword_score_def Let_def)

lemma keyword_score_mono:
  assumes "matched_points a1 points \<le> matched_points a2 points"
  shows "keyword_score a1 points \<le> keyword_score a2 points"
proof -
  have "(matched_points a1 points * 60) div length points
          \<le> (matched_points a2 points * 60) div length points"
    using assms by (intro div_le_mono) simp
  with assms show ?thesis by (auto simp: keyword_score_def Let_def)
qed

lemma short_answer_guarded:
  assumes "length (strip ua) < 5 \<or> (isalpha (strip ua) \<and> length (strip ua) < 4)"
  shows "evaluate_short_answer r response q ua e c = evaluate_short_answer r None q ua e c"
    and "score_percentage (evaluate_short_answer r response q ua e c) = Some 0"
    and "\<not> is_correct (evaluate_short_answer r response q ua e c)"
    and "is_partial (evaluate_short_answer r response q ua e c) = Some False"
  using assms by (simp_all add: evaluate_short_answer_def Let_def)

lemma short_answer_fallback_fields:
  assumes "5 \<le> length (strip ua)"
  shows "score_percentage (evaluate_short_answer r None q ua e c)
           = Some (int (keyword_score ua (key_points q)))"
    and "is_correct (evaluate_short_answer r None q ua e c)
           \<longleftrightarrow> 75 \<le> keyword_score ua (key_points q)"
    and "is_partial (evaluate_short_answer r None q ua e c)
           = Some (30 \<le> keyword_score ua (key_points q) \<and> keyword_score ua (key_points q) < 75)"
  using assms by (simp_all add: evaluate_short_answer_def Let_def)

text \<open>
  Claim C5. For a short-answer item, when the stripped user answer has fewer than 5
  characters, or is alphabetic with fewer than 4, the result has \<open>score_percentage\<close> 0,
  is neither correct nor partial, and is the same whatever the generative service would
  answer or whether it fails: the service is not consulted. The answer \<open>grb\<close> scores 0
  and is not correct.
\<close>

theorem short_answer_length_guard:
  "(qtype q = Some ''short_answer''
      \<and> (length (strip user_answer) < 5
           \<or> (isalpha (strip user_answer) \<and> length (strip user_answer) < 4)) \<longrightarrow>
      score_percentage (generate_feedback r response q user_answer e c) = Some 0
      \<and> \<not> is_correct (generate_feedback r response q user_answer e c)
      \<and> is_partial (generate_feedback r response q user_answer e c) = Some False
      \<and> generate_feedback r response q user_answer e c
          = generate_feedback r None q user_answer e c)
   \<and> score_percentage (generate_feedback r response (q\<lparr>qtype := Some ''short_answer''\<rparr>)
        ''grb'' e c) = Some 0
   \<and> \<not> is_correct (generate_feedback r response (q\<lparr>qtype := Some ''short_answer''\<rparr>)
        ''grb'' e c)"
proof -
  have grb: "length (strip ''grb'') < 5" by code_simp
  show ?thesis
    using short_answer_guarded [of "''grb''" r response "q\<lparr>qtype := Some ''short_answer''\<rparr>" e c] grb
      short_answer_guarded [of user_answer r response q e c]
    by (auto simp: generate_feedback_short)
qed

theorem short_answer_length_guard_witness:
  "qtype (sample_question ''short_answer'' None sample_key_points) = Some ''short_answer''
   \<and> length (strip '' ok  '') < 5
   \<and> score_percentage (generate_feedback first_rng
         (Some \<lparr>llm_feedback = ''Well reasoned and complete.'', llm_resources = [],
                 llm_score = 90\<rparr>)
         (sample_question ''short_answer'' None sample_key_points) '' ok  '' None None) = Some 0
   \<and> \<not> is_correct (generate_feedback first_rng
         (Some \<lparr>llm_feedback = ''Well reasoned and complete.'', llm_resources = [],
                 llm_score = 90\<rparr>)
         (sample_question ''short_answer'' None sample_key_points) '' ok  '' None None)"
proof -
  let ?q = "sample_question ''short_answer'' None sample_key_points"
  let ?resp = "Some \<lparr>llm_feedback = ''Well reasoned and complete.'', llm_resources = [],
                 llm_score = 90\<rparr>"
  let ?res = "generate_feedback first_rng ?resp ?q '' ok  '' None None"
  have t: "qtype ?q = Some ''short_answer''"
    by (simp add: sample_question_def)
  have g: "length (strip '' ok  '') < 5" by code_simp
  have all: "score_percentage ?res = Some 0 \<and> \<not> is_correct ?res
             \<and> is_partial ?res = Some False
             \<and> ?res = generate_feedback first_rng None ?q '' ok  '' None None"
    by (rule mp [OF conjunct1 [OF short_answer_length_guard
          [of ?q "'' ok  ''" first_rng ?resp None None]]])
       (simp add: t g)
  from all have s: "score_percentage ?res = Some 0" by (rule conjunct1)
  from all have c: "\<not> is_correct ?res" by (rule conjunct1 [OF conjunct2])
  show ?thesis by (intro conjI t g s c)
qed

text \<open>
  Claim C4, as the code has it. When the generative scoring call fails for a short-answer
  item whose stripped answer has at least 5 characters, the score comes from the keyword
  heuristic: a key point matches when one of its words of more than 3 characters occurs,
  lower-cased, in the lower-cased answer, and the score is 0 when no key point matches
  and otherwise \<open>min(70, matched * 60 div total)\<close>, the quotient truncated, not rounded.
  The score is at most 60, so it never exceeds 70 and is never perfect;
  \<open>is_correct = score >= 75\<close> and \<open>is_partial = 30 <= score < 75\<close>.
\<close>

theorem short_answer_keyword_fallback:
  assumes "qtype q = Some ''short_answer''" and "5 \<le> length (strip user_answer)"
  shows "let m = matched_points user_answer (key_points q);
             n = length (key_points q);
             s = (if m = 0 then 0 else min 70 ((m * 60) div n));
             res = generate_feedback r None q user_answer e c
         in m = length (filter (\<lambda>point. \<exists>word \<in> set (split point).
                   3 < length word \<and> sublist (lower word) (lower user_answer)) (key_points q))
            \<and> score_percentage res = Some (int s)
            \<and> s \<le> 60
            \<and> (is_correct res \<longleftrightarrow> 75 \<le> s)
            \<and> is_partial res = Some (30 \<le> s \<and> s < 75)"
proof -
  have s: "keyword_score user_answer (key_points q)
           = (if matched_points user_answer (key_points q) = 0 then 0
              else min 70 ((matched_points user_answer (key_points q) * 60)
                            div length (key_points q)))"
    by (simp add: keyword_score_def Let_def)
  have m: "matched_points user_answer (key_points q)
           = length (filter (\<lambda>point. \<exists>word \<in> set (split point).
                   3 < length word \<and> sublist (lower word) (lower user_answer)) (key_points q))"
    by (simp add: matched_points_filter point_matches_words [abs_def])
  show ?thesis
    unfolding Let_def generate_feedback_short [OF assms(1)] s [symmetric]
      short_answer_fallback_fields [OF assms(2)]
    using m keyword_score_le [of user_answer "key_points q"] by simp
qed

theorem short_answer_keyword_fallback_witness:
  "qtype (sample_question ''short_answer'' None sample_key_points) = Some ''short_answer''
   \<and> 5 \<le> length (strip ''machine learning with neural networks'')
   \<and> matched_points ''machine learning with neural networks''
         (key_points (sample_question ''short_answer'' None sample_key_points)) = 2
   \<and> score_percentage (generate_feedback first_rng None
         (sample_question ''short_answer'' None sample_key_points)
         ''machine learning with neural networks'' None None) = Some 17
   \<and> \<not> is_correct (generate_feedback first_rng None
         (sample_question ''short_answer'' None sample_key_points)
         ''machine learning with neural networks'' None None)
   \<and> is_partial (generate_feedback first_rng None
         (sample_question ''short_answer'' None sample_key_points)
         ''machine learning with neural networks'' None None) = Some False"
proof -
  let ?q = "sample_question ''short_answer'' None sample_key_points"
  have t: "qtype ?q = Some ''short_answer''"
    by (simp add: sample_question_def)
  have g: "5 \<le> length (strip ''machine learning with neural networks'')" by code_simp
  have k: "key_points ?q = sample_key_points"
    by (simp add: sample_question_def)
  have m: "matched_points ''machine learning with neural networks'' sample_key_points = 2"
    by code_simp
  have n: "length sample_key_points = 7"
    by (simp add: sample_key_points_def)
  show ?thesis
    using short_answer_keyword_fallback [OF t g, of first_rng None None] t g
    by (simp add: Let_def k m n)
qed

text \<open>
  Claim C4 as stated fails: with one of seven key points matched the code reports
  \<open>int(1 / 7 * 60) = 8\<close>, while the rounded formula of the claim gives 9.
\<close>

theorem short_answer_rounding_counterexample:
  "qtype (sample_question ''short_answer'' None sample_key_points) = Some ''short_answer''
   \<and> 5 \<le> length (strip ''It is about machine things'')
   \<and> matched_points ''It is about machine things''
         (key_points (sample_question ''short_answer'' None sample_key_points)) = 1
   \<and> length (key_points (sample_question ''short_answer'' None sample_key_points)) = 7
   \<and> score_percentage (generate_feedback first_rng None
         (sample_question ''short_answer'' None sample_key_points)
         ''It is about machine things'' None None) = Some 8
   \<and> spec_rounded_score 1 7 = 9
   \<and> score_percentage (generate_feedback first_rng None
         (sample_question ''short_answer'' None sample_key_points)
         ''It is about machine things'' None None)
       \<noteq> Some (spec_rounded_score
            (matched_points ''It is about machine things''
               (key_points (sample_question ''short_answer'' None sample_key_points)))
            (length (key_points (sample_question ''short_answer'' None sample_key_points))))"
proof (intro conjI)
  show "qtype (sample_question ''short_answer'' None sample_key_points) = Some ''short_answer''"
    by (simp add: sample_question_def)
  show "5 \<le> length (strip ''It is about machine things'')" by code_simp
  show "matched_points ''It is about machine things''
         (key_points (sample_question ''short_answer'' None sample_key_points)) = 1"
    by code_simp
  show "length (key_points (sample_question ''short_answer'' None sample_key_points)) = 7"
    by code_simp
  show "score_percentage (generate_feedback first_rng None
         (sample_question ''short_answer'' None sample_key_points)
         ''It is about machine things'' None None) = Some 8"
    by code_simp
  show "spec_rounded_score 1 7 = 9" by code_simp
  show "score_percentage (generate_feedback first_rng None
         (sample_question ''short_answer'' None sample_key_points)
         ''It is about machine things'' None None)
       \<noteq> Some (spec_rounded_score
            (matched_points ''It is about machine things''
               (key_points (sample_question ''short_answer'' None sample_key_points)))
            (length (key_points (sample_question ''short_answer'' None sample_key_points))))"
    by code_simp
qed

text \<open>
  Claim C6. The fallback heuristic is monotone in the number of matched key points: for
  one short-answer item, with the generative service failing and both stripped answers
  of at least 5 characters, an answer that matches at least as many key points as
  another (in particular more) gets a score that is not lower.
\<close>

theorem short_answer_fallback_monotone:
  assumes "qtype q = Some ''short_answer''"
    and "5 \<le> length (strip answer1)" and "5 \<le> length (strip answer2)"
    and "matched_points answer1 (key_points q) \<le> matched_points answer2 (key_points q)"
  shows "\<exists>s1 s2. score_percentage (generate_feedback r None q answer1 e c) = Some s1
           \<and> score_percentage (generate_feedback r None q answer2 e c) = Some s2
           \<and> s1 \<le> s2"
  using keyword_score_mono [OF assms(4)]
  by (simp add: generate_feedback_short [OF assms(1)] short_answer_fallback_fields assms(2,3))

theorem short_answer_fallback_monotone_witness:
  "qtype (sample_question ''short_answer'' None sample_key_points) = Some ''short_answer''
   \<and> 5 \<le> length (strip ''It is about machine things'')
   \<and> 5 \<le> length (strip ''machine learning with neural networks'')
   \<and> matched_points ''It is about machine things''
         (key_points (sample_question ''short_answer'' None sample_key_points))
       < matched_points ''machine learning with neural networks''
         (key_points (sample_question ''short_answer'' None sample_key_points))
   \<and> (\<exists>s1 s2.
         score_percentage (generate_feedback first_rng None
           (sample_question ''short_answer'' None sample_key_points)
           ''It is about machine things'' None None) = Some s1
       \<and> score_percentage (generate_feedback first_rng None
           (sample_question ''short_answer'' None sample_key_points)
           ''machine learning with neural networks'' None None) = Some s2
       \<and> s1 \<le> s2)"
proof -
  let ?q = "sample_question ''short_answer'' None sample_key_points"
  have t: "qtype ?q = Some ''short_answer''"
    by (simp add: sample_question_def)
  have g1: "5 \<le> length (strip ''It is about machine things'')" by code_simp
  have g2: "5 \<le> length (strip ''machine learning with neural networks'')" by code_simp
  have k: "key_points ?q = sample_key_points"
    by (simp add: sample_question_def)
  have m1: "matched_points ''It is about machine things'' sample_key_points = 1"
    by code_simp
  have m2: "matched_points ''machine learning with neural networks'' sample_key_points = 2"
    by code_simp
  have le: "matched_points ''It is about machine things'' (key_points ?q)
            \<le> matched_points ''machine learning with neural networks'' (key_points ?q)"
    by (simp add: k m1 m2)
  from short_answer_fallback_monotone [OF t g1 g2 le, of first_rng None None]
  show ?thesis using t g1 g2 by (simp add: k m1 m2)
qed

section \<open>Properties of the item assembly\<close>

lemma of_char_digit_char:
  assumes "d < 10"
  shows "(of_char (digit_char d) :: nat) = 48 + d"
  using assms by (simp add: digit_char_def)

lemma digit_char_inj:
  assumes "a < 10" "b < 10" "digit_char a = digit_char b"
  shows "a = b"
proof -
  from assms(3) have "(of_char (digit_char a) :: nat) = of_char (digit_char b)" by simp
  with assms(1,2) show ?thesis by (simp add: of_char_digit_char)
qed

lemma digit_char_not_underscore:
  assumes "d < 10"
  shows "digit_char d \<noteq> CHR ''_''"
proof
  assume "digit_char d = CHR ''_''"
  then have "(of_char (digit_char d) :: nat) = of_char CHR ''_''" by simp
  with assms show False by (simp add: of_char_digit_char)
qed

lemma str_nat_no_underscore: "CHR ''_'' \<notin> set (str_nat n)"
proof (induction n rule: str_nat.induct)
  case (1 n)
  show ?case
  proof (cases "n < 10")
    case True
    then show ?thesis
      using digit_char_not_underscore [of n] by (subst str_nat.simps) auto
  next
    case False
    moreover have "n mod 10 < 10" by simp
    ultimately show ?thesis
      using 1 digit_char_not_underscore [of "n mod 10"]
      by (subst str_nat.simps) auto
  qed
qed

lemma str_nat_nonempty: "str_nat n \<noteq> []"
  by (subst str_nat.simps) simp

lemma str_nat_length:
  assumes "10 \<le> n"
  shows "2 \<le> length (str_nat n)"
proof -
  have "Suc 0 \<le> length (str_nat (n div 10))"
    using str_nat_nonempty [of "n div 10"] by (cases "str_nat (n div 10)") simp_all
  moreover from assms have "str_nat n = str_nat (n div 10) @ [digit_char (n mod 10)]"
    by (subst str_nat.simps) simp
  ultimately show ?thesis by simp
qed

lemma str_nat_inj:
  assumes "str_nat m = str_nat n"
  shows "m = n"
  using assms
proof (induction m arbitrary: n rule: str_nat.induct)
  case (1 m)
  show ?case
  proof (cases "m < 10")
    case small: True
    then have m: "str_nat m = [digit_char m]" by (subst str_nat.simps) simp
    show ?thesis
    proof (cases "n < 10")
      case True
      then have "str_nat n = [digit_char n]" by (subst str_nat.simps) simp
      with m "1.prems" small True show ?thesis by (auto dest: digit_char_inj)
    next
      case False
      then have "2 \<le> length (str_nat n)" by (simp add: str_nat_length)
      with m "1.prems" show ?thesis by simp
    qed
  next
    case big: False
    then have m: "str_nat m = str_nat (m div 10) @ [digit_char (m mod 10)]"
      by (subst str_nat.simps) simp
    show ?thesis
    proof (cases "n < 10")
      case True
      then have "str_nat n = [digit_char n]" by (subst str_nat.simps) simp
      moreover from big have "2 \<le> length (str_nat m)" by (simp add: str_nat_length)
      ultimately show ?thesis using "1.prems" by simp
    next
      case False
      then have "str_nat n = str_nat (n div 10) @ [digit_char (n mod 10)]"
        by (subst str_nat.simps) simp
      with m "1.prems" have eq: "str_nat (m div 10) = str_nat (n div 10)"
        and d: "digit_char (m mod 10) = digit_char (n mod 10)" by simp_all
      from "1.IH" [OF big eq] have "m div 10 = n div 10" .
      moreover from d have "m mod 10 = n mod 10" by (auto dest: digit_char_inj [rotated 2])
      ultimately show ?thesis by (metis div_mult_mod_eq)
    qed
  qed
qed

lemma question_id_counter_inj:
  assumes "generate_unique_question_id v s i = generate_unique_question_id v' s' j"
  shows "i = j"
proof -
  have tail: "takeWhile (\<lambda>c. c \<noteq> CHR ''_'') (rev (generate_unique_question_id w t k))
              = rev (str_nat k)" for w t k
  proof -
    have "rev (generate_unique_question_id w t k)
            = rev (str_nat k) @ CHR ''_'' # (rev t @ ''_'' @ rev w)"
      by (simp add: generate_unique_question_id_def)
    moreover have "takeWhile (\<lambda>c. c \<noteq> CHR ''_'') (rev (str_nat k)) = rev (str_nat k)"
      using str_nat_no_underscore [of k] by (intro takeWhile_eq_all_conv [THEN iffD2]) auto
    ultimately show ?thesis by (simp add: takeWhile_tail)
  qed
  from assms have "rev (str_nat i) = rev (str_nat j)"
    using tail [of v s i] tail [of v' s' j] by simp
  then show ?thesis by (simp add: str_nat_inj)
qed

lemma state_ok_if:
  assumes "state_ok fmt vid chunks a" and "state_ok fmt vid chunks b"
  shows "state_ok fmt vid chunks (if c then a else b)"
  using assms by simp

lemma numbered_by_counter_iff:
  "numbered_by_counter fmt vid chunks qs \<longleftrightarrow>
     (\<forall>i < length qs. \<exists>chunk \<in> set chunks.
        question_id (qs ! i) = generate_unique_question_id vid (fmt (start_time chunk)) i)"
  unfolding numbered_by_counter_def list_all_iff list_ex_iff
  by (simp add: Ball_def)

lemma initial_state_ok: "state_ok fmt vid chunks initial_state"
  by (simp add: state_ok_def initial_state_def numbered_by_counter_iff)

lemma add_chunk_questions_ok:
  assumes "chunk \<in> set chunks" and "state_ok fmt vid chunks st"
  shows "state_ok fmt vid chunks (add_chunk_questions fmt api vid question_type chunk st)"
proof -
  define questions where
    "questions = generate_from_text fmt api (api_calls st) (chunk_text chunk) vid
                   (start_time chunk) (end_time chunk) 1 question_type"
  define numbered where
    "numbered = map (\<lambda>(k, q). q\<lparr>question_id :=
                        generate_unique_question_id vid (fmt (start_time chunk))
                          (question_counter st + k)\<rparr>)
                  (enumerate 0 questions)"
  define old where "old = generated_questions st"
  have new: "add_chunk_questions fmt api vid question_type chunk st
             = \<lparr>generated_questions = old @ numbered,
                question_counter = question_counter st + length questions,
                api_calls = api_calls st + 1\<rparr>"
    by (simp add: add_chunk_questions_def Let_def questions_def numbered_def old_def)
  have len: "length numbered = length questions"
    by (simp add: numbered_def)
  from assms(2) have cnt: "question_counter st = length old"
    and ids: "\<forall>i < length old. \<exists>c \<in> set chunks.
                question_id (old ! i) = generate_unique_question_id vid (fmt (start_time c)) i"
    by (simp_all add: state_ok_def numbered_by_counter_iff old_def)
  have "\<exists>c \<in> set chunks. question_id ((old @ numbered) ! i)
           = generate_unique_question_id vid (fmt (start_time c)) i"
    if "i < length old + length questions" for i
  proof (cases "i < length old")
    case True
    with ids show ?thesis by (simp add: nth_append)
  next
    case False
    define k where "k = i - length old"
    from False that have k: "k < length questions" and i: "i = length old + k"
      by (simp_all add: k_def)
    have "question_id (numbered ! k)
            = generate_unique_question_id vid (fmt (start_time chunk)) (question_counter st + k)"
      using k by (simp add: numbered_def nth_enumerate_eq)
    with assms(1) show ?thesis
      by (auto simp: i cnt nth_append)
  qed
  then show ?thesis
    by (simp add: new state_ok_def numbered_by_counter_iff cnt len)
qed

lemma first_pass_indices_ok:
  assumes "state_ok fmt vid chunks st"
  shows "state_ok fmt vid chunks
           (first_pass_indices fmt api vid question_type question_count chunks indices st)"
  using assms
proof (induction indices arbitrary: st)
  case Nil
  then show ?case by simp
next
  case (Cons idx rest)
  show ?case
  proof (cases "idx < length chunks")
    case True
    then have "chunks ! idx \<in> set chunks" by simp
    then have "state_ok fmt vid chunks
                 (add_chunk_questions fmt api vid question_type (chunks ! idx) st)"
      using Cons.prems by (rule add_chunk_questions_ok)
    with True Cons.IH show ?thesis by (simp add: Let_def)
  next
    case False
    with Cons show ?thesis by simp
  qed
qed

lemma first_pass_chunks_ok:
  assumes "set chosen \<subseteq> set chunks" and "state_ok fmt vid chunks st"
  shows "state_ok fmt vid chunks
           (first_pass_chunks fmt api vid question_type question_count chosen st)"
  using assms
proof (induction chosen arbitrary: st)
  case Nil
  then show ?case by simp
next
  case (Cons chunk rest)
  from Cons.prems have "chunk \<in> set chunks" by simp
  then have "state_ok fmt vid chunks (add_chunk_questions fmt api vid question_type chunk st)"
    using Cons.prems(2) by (rule add_chunk_questions_ok)
  with Cons.IH Cons.prems(1) show ?case by (simp add: Let_def)
qed

lemma foldl_add_chunk_ok:
  assumes "\<forall>i \<in> set positions. i < length indices"
    and "\<forall>j \<in> set indices. j < length chunks"
    and "state_ok fmt vid chunks st"
  shows "state_ok fmt vid chunks
           (foldl (\<lambda>s i. add_chunk_questions fmt api vid question_type
                            (chunks ! (indices ! i)) s) st positions)"
  using assms
proof (induction positions arbitrary: st)
  case Nil
  then show ?case by simp
next
  case (Cons p rest)
  from Cons.prems(1,2) have "indices ! p < length chunks" by simp
  then have "chunks ! (indices ! p) \<in> set chunks" by simp
  then have "state_ok fmt vid chunks
               (add_chunk_questions fmt api vid question_type (chunks ! (indices ! p)) st)"
    using Cons.prems(3) by (rule add_chunk_questions_ok)
  with Cons.IH Cons.prems(1,2) show ?case by simp
qed

lemma second_pass_ok:
  assumes "\<forall>j \<in> set indices. j < length chunks" and "state_ok fmt vid chunks st"
  shows "state_ok fmt vid chunks
           (second_pass fmt api vid question_type chunks indices remaining st)"
  unfolding second_pass_def
  by (rule foldl_add_chunk_ok [OF _ assms]) simp

lemma assembly_ok_take:
  assumes "state_ok fmt vid chunks st"
  shows "assembly_ok fmt vid question_count chunks (take question_count (generated_questions st))"
proof -
  define gen where "gen = generated_questions st"
  define qs where "qs = take question_count gen"
  from assms have "numbered_by_counter fmt vid chunks gen"
    by (simp add: state_ok_def gen_def)
  then have full: "\<forall>i < length gen. \<exists>c \<in> set chunks.
      question_id (gen ! i) = generate_unique_question_id vid (fmt (start_time c)) i"
    by (simp only: numbered_by_counter_iff)
  have ids: "\<forall>i < length qs. \<exists>c \<in> set chunks.
      question_id (qs ! i) = generate_unique_question_id vid (fmt (start_time c)) i"
  proof (intro allI impI)
    fix i
    assume "i < length qs"
    then have i: "i < question_count" "i < length gen" by (simp_all add: qs_def)
    then have eq: "qs ! i = gen ! i" by (simp add: qs_def)
    from full have "i < length gen \<longrightarrow> (\<exists>c \<in> set chunks.
        question_id (gen ! i) = generate_unique_question_id vid (fmt (start_time c)) i)"
      by (rule spec)
    from this i(2) show "\<exists>c \<in> set chunks.
        question_id (qs ! i) = generate_unique_question_id vid (fmt (start_time c)) i"
      unfolding eq by (rule mp)
  qed
  then have num: "numbered_by_counter fmt vid chunks qs"
    by (simp only: numbered_by_counter_iff)
  have dist: "distinct (map question_id qs)"
    unfolding distinct_conv_nth
  proof (intro allI impI)
    fix i j
    assume "i < length (map question_id qs)" "j < length (map question_id qs)" "i \<noteq> j"
    then have i: "i < length qs" and j: "j < length qs" by simp_all
    from ids have "i < length qs \<longrightarrow> (\<exists>c \<in> set chunks.
        question_id (qs ! i) = generate_unique_question_id vid (fmt (start_time c)) i)"
      by (rule spec)
    from this i have "\<exists>c \<in> set chunks.
        question_id (qs ! i) = generate_unique_question_id vid (fmt (start_time c)) i"
      by (rule mp)
    then obtain c where "c \<in> set chunks" and
      c: "question_id (qs ! i) = generate_unique_question_id vid (fmt (start_time c)) i"
      by (rule bexE)
    from ids have "j < length qs \<longrightarrow> (\<exists>c \<in> set chunks.
        question_id (qs ! j) = generate_unique_question_id vid (fmt (start_time c)) j)"
      by (rule spec)
    from this j have "\<exists>c \<in> set chunks.
        question_id (qs ! j) = generate_unique_question_id vid (fmt (start_time c)) j"
      by (rule mp)
    then obtain c' where "c' \<in> set chunks" and
      c': "question_id (qs ! j) = generate_unique_question_id vid (fmt (start_time c')) j"
      by (rule bexE)
    show "map question_id qs ! i \<noteq> map question_id qs ! j"
    proof
      assume "map question_id qs ! i = map question_id qs ! j"
      with i j have "question_id (qs ! i) = question_id (qs ! j)" by simp
      then have "generate_unique_question_id vid (fmt (start_time c)) i
                 = generate_unique_question_id vid (fmt (start_time c')) j"
        by (simp only: c c')
      then have "i = j" by (rule question_id_counter_inj)
      with \<open>i \<noteq> j\<close> show False by simp
    qed
  qed
  have len: "length qs \<le> question_count" by (simp add: qs_def)
  show ?thesis
    unfolding assembly_ok_def gen_def [symmetric] qs_def [symmetric]
    by (intro conjI len dist num)
qed

lemma selected_chunks_subset:
  assumes "selected_chunks topic_chunks question_count = Inr chosen"
  shows "set chosen \<subseteq> set topic_chunks"
proof (cases "length topic_chunks \<le> question_count")
  case True
  with assms show ?thesis by (simp add: selected_chunks_def)
next
  case False
  with assms have "chosen = map (\<lambda>i. topic_chunks ! i)
                      (selected_indices (length topic_chunks) question_count)"
    by (simp add: selected_chunks_def split: if_splits)
  moreover have "\<forall>i \<in> set (selected_indices (length topic_chunks) question_count).
                   i < length topic_chunks"
    by (simp add: selected_indices_def Let_def)
  ultimately show ?thesis by auto
qed

lemma unused_indices_bound: "\<forall>j \<in> set (unused_indices n indices). j < n"
  by (simp add: unused_indices_def)

lemma available_indices_bound:
  "\<forall>j \<in> set (available_indices topic_chunks chosen). j < length topic_chunks"
  by (simp add: available_indices_def Let_def)

lemma youtube_questions_ok:
  assumes "youtube_questions fmt api vid question_type question_count chunks = Inr qs"
  shows "assembly_ok fmt vid question_count chunks qs"
proof (cases "chunk_indices (length chunks) question_count")
  case (Inl err)
  with assms show ?thesis by (simp add: youtube_questions_def)
next
  case (Inr indices)
  let ?st1 = "first_pass_indices fmt api vid question_type question_count chunks indices
                initial_state"
  let ?st2 = "second_pass fmt api vid question_type chunks
                (unused_indices (length chunks) indices)
                (question_count - length (generated_questions ?st1)) ?st1"
  let ?more = "length (generated_questions ?st1) < question_count \<and> length chunks > 0"
  have ok1: "state_ok fmt vid chunks ?st1"
    by (rule first_pass_indices_ok [OF initial_state_ok])
  have ok2: "state_ok fmt vid chunks ?st2"
    by (rule second_pass_ok [OF unused_indices_bound ok1])
  have "state_ok fmt vid chunks (if ?more then ?st2 else ?st1)"
    by (rule state_ok_if [OF ok2 ok1])
  then have "assembly_ok fmt vid question_count chunks
               (take question_count (generated_questions (if ?more then ?st2 else ?st1)))"
    by (rule assembly_ok_take)
  moreover from assms
  have "qs = take question_count (generated_questions (if ?more then ?st2 else ?st1))"
    unfolding youtube_questions_def Let_def Inr by (simp only: sum.case sum.inject)
  ultimately show ?thesis by (simp only:)
qed

lemma subtitle_questions_ok:
  assumes "subtitle_questions fmt api vid question_type question_count topic_chunks = Inr qs"
  shows "assembly_ok fmt vid question_count topic_chunks qs"
proof (cases "topic_chunks = []")
  case True
  with assms show ?thesis by (simp add: subtitle_questions_def)
next
  case nonempty: False
  show ?thesis
  proof (cases "selected_chunks topic_chunks question_count")
    case (Inl err)
    with assms nonempty show ?thesis by (simp add: subtitle_questions_def)
  next
    case (Inr chosen)
    let ?st1 = "first_pass_chunks fmt api vid question_type question_count chosen
                  initial_state"
    let ?st2 = "second_pass fmt api vid question_type topic_chunks
                  (available_indices topic_chunks chosen)
                  (question_count - length (generated_questions ?st1)) ?st1"
    let ?more = "length (generated_questions ?st1) < question_count
                   \<and> length topic_chunks > 0"
    have ok1: "state_ok fmt vid topic_chunks ?st1"
      by (rule first_pass_chunks_ok [OF selected_chunks_subset [OF Inr] initial_state_ok])
    have ok2: "state_ok fmt vid topic_chunks ?st2"
      by (rule second_pass_ok [OF available_indices_bound ok1])
    have "state_ok fmt vid topic_chunks (if ?more then ?st2 else ?st1)"
      by (rule state_ok_if [OF ok2 ok1])
    then have "assembly_ok fmt vid question_count topic_chunks
                 (take question_count (generated_questions (if ?more then ?st2 else ?st1)))"
      by (rule assembly_ok_take)
    moreover from assms
    have "qs = take question_count (generated_questions (if ?more then ?st2 else ?st1))"
      unfolding subtitle_questions_def Let_def Inr if_not_P [OF nonempty]
      by (simp only: sum.case sum.inject)
    ultimately show ?thesis by (simp only:)
  qed
qed

lemma chunk_indices_returns:
  assumes "1 \<le> question_count"
  shows "\<exists>indices. chunk_indices n question_count = Inr indices"
  using assms by (simp add: chunk_indices_def Let_def)

lemma selected_chunks_returns:
  assumes "1 \<le> question_count"
  shows "\<exists>chosen. selected_chunks topic_chunks question_count = Inr chosen"
  using assms by (simp add: selected_chunks_def)

lemma youtube_questions_returns:
  assumes "1 \<le> question_count"
  shows "\<exists>qs. youtube_questions fmt api vid question_type question_count chunks = Inr qs"
proof -
  from chunk_indices_returns [OF assms] obtain indices where
    "chunk_indices (length chunks) question_count = Inr indices" ..
  then show ?thesis by (simp add: youtube_questions_def Let_def)
qed

lemma subtitle_questions_returns:
  assumes "1 \<le> question_count" and "topic_chunks \<noteq> []"
  shows "\<exists>qs. subtitle_questions fmt api vid question_type question_count topic_chunks = Inr qs"
proof -
  from selected_chunks_returns [OF assms(1)] obtain chosen where
    "selected_chunks topic_chunks question_count = Inr chosen" ..
  with assms(2) show ?thesis by (simp add: subtitle_questions_def Let_def)
qed

text \<open>
  Claim C2. For every chunk list, video id, target count, item type and behaviour of the
  generative service (the service is an arbitrary input, so also one that fails on
  every call), a run of either assembly branch that returns a list returns at most
  \<open>target_count\<close> items with pairwise different identifiers, and the item at position
  \<open>i\<close> carries \<open>"{video_id}_{chunk.start_time}_{i}"\<close> for one of the chunks: the counter
  starts at 0, advances by one per appended item and is never reset. For a target count
  of at least 1 the YouTube branch returns a list, and so does the subtitle branch when
  the video has chunks.
\<close>

theorem assembly_bounded_unique_ids:
  "(\<forall>qs. youtube_questions fmt api vid item_type target_count chunks = Inr qs
          \<longrightarrow> assembly_ok fmt vid target_count chunks qs)
   \<and> (\<forall>qs. subtitle_questions fmt api vid item_type target_count chunks = Inr qs
          \<longrightarrow> assembly_ok fmt vid target_count chunks qs)
   \<and> (1 \<le> target_count \<longrightarrow>
         (\<exists>qs. youtube_questions fmt api vid item_type target_count chunks = Inr qs))
   \<and> (1 \<le> target_count \<and> chunks \<noteq> [] \<longrightarrow>
         (\<exists>qs. subtitle_questions fmt api vid item_type target_count chunks = Inr qs))"
proof (intro conjI allI impI)
  fix qs
  assume "youtube_questions fmt api vid item_type target_count chunks = Inr qs"
  then show "assembly_ok fmt vid target_count chunks qs" by (rule youtube_questions_ok)
next
  fix qs
  assume "subtitle_questions fmt api vid item_type target_count chunks = Inr qs"
  then show "assembly_ok fmt vid target_count chunks qs" by (rule subtitle_questions_ok)
next
  assume "1 \<le> target_count"
  then show "\<exists>qs. youtube_questions fmt api vid item_type target_count chunks = Inr qs"
    by (rule youtube_questions_returns)
next
  assume "1 \<le> target_count \<and> chunks \<noteq> []"
  then have "1 \<le> target_count" and "chunks \<noteq> []" by simp_all
  then show "\<exists>qs. subtitle_questions fmt api vid item_type target_count chunks = Inr qs"
    by (rule subtitle_questions_returns)
qed

theorem assembly_bounded_unique_ids_witness:
  "(1::nat) \<le> 3 \<and> sample_chunks \<noteq> []
   \<and> (\<exists>qs. youtube_questions str_nat generous_api ''vid'' ''multiple_choice'' 3 sample_chunks
               = Inr qs
          \<and> map question_id qs = [''vid_0_0'', ''vid_0_1'', ''vid_10_2'']
          \<and> assembly_ok str_nat ''vid'' 3 sample_chunks qs)
   \<and> (\<exists>qs. subtitle_questions str_nat generous_api ''vid'' ''multiple_choice'' 3 sample_chunks
               = Inr qs
          \<and> map question_id qs = [''vid_0_0'', ''vid_0_1'', ''vid_10_2'']
          \<and> assembly_ok str_nat ''vid'' 3 sample_chunks qs)"
proof -
  note run = assembly_bounded_unique_ids
    [of str_nat generous_api "''vid''" "''multiple_choice''" 3 sample_chunks]
  have t: "(1::nat) \<le> 3" by simp
  have c: "sample_chunks \<noteq> []" by (simp add: sample_chunks_def)
  have y_ids: "map_sum id (map question_id)
         (youtube_questions str_nat generous_api ''vid'' ''multiple_choice'' 3 sample_chunks)
       = Inr [''vid_0_0'', ''vid_0_1'', ''vid_10_2'']"
    by code_simp
  have s_ids: "map_sum id (map question_id)
         (subtitle_questions str_nat generous_api ''vid'' ''multiple_choice'' 3 sample_chunks)
       = Inr [''vid_0_0'', ''vid_0_1'', ''vid_10_2'']"
    by code_simp
  from run t obtain ys where
    y: "youtube_questions str_nat generous_api ''vid'' ''multiple_choice'' 3 sample_chunks = Inr ys"
    by auto
  from run y have y_ok: "assembly_ok str_nat ''vid'' 3 sample_chunks ys" by simp
  from y_ids y have y_map: "map question_id ys = [''vid_0_0'', ''vid_0_1'', ''vid_10_2'']"
    by simp
  from run t c obtain ss where
    s: "subtitle_questions str_nat generous_api ''vid'' ''multiple_choice'' 3 sample_chunks = Inr ss"
    by auto
  from run s have s_ok: "assembly_ok str_nat ''vid'' 3 sample_chunks ss" by simp
  from s_ids s have s_map: "map question_id ss = [''vid_0_0'', ''vid_0_1'', ''vid_10_2'']"
    by simp
  have "\<exists>qs. youtube_questions str_nat generous_api ''vid'' ''multiple_choice'' 3 sample_chunks
               = Inr qs
          \<and> map question_id qs = [''vid_0_0'', ''vid_0_1'', ''vid_10_2'']
          \<and> assembly_ok str_nat ''vid'' 3 sample_chunks qs"
    by (intro exI [of _ ys] conjI y y_map y_ok)
  moreover
  have "\<exists>qs. subtitle_questions str_nat generous_api ''vid'' ''multiple_choice'' 3 sample_chunks
               = Inr qs
          \<and> map question_id qs = [''vid_0_0'', ''vid_0_1'', ''vid_10_2'']
          \<and> assembly_ok str_nat ''vid'' 3 sample_chunks qs"
    by (intro exI [of _ ss] conjI s s_map s_ok)
  ultimately show ?thesis using t c by (intro conjI)
qed

text \<open>
  The same holds when the service fails on every call: each chunk then contributes the
  fallback item of the requested type, numbered by the same counter.
\<close>

lemma assembly_all_calls_fail:
  "map_sum id (map question_id)
     (youtube_questions str_nat failing_api ''vid'' ''multiple_choice'' 2 sample_chunks)
     = Inr [''vid_0_0'', ''vid_10_1'']
   \<and> map_sum id (map question_id)
     (subtitle_questions str_nat failing_api ''vid'' ''multiple_choice'' 5 sample_chunks)
     = Inr [''vid_0_0'', ''vid_10_1'', ''vid_20_2'', ''vid_0_3'', ''vid_10_4'']"
  by code_simp

section \<open>Properties of the question-count clamp\<close>

lemma clamp_question_count_range:
  assumes "clamp_question_count requested = Inr n"
  shows "10 \<le> n \<and> n \<le> 20"
  using assms
  by (auto simp: clamp_question_count_def Let_def split: sum.splits if_splits)

lemma clamp_question_count_returns:
  assumes "requested \<noteq> Some (JFloat PosInf)" "requested \<noteq> Some (JFloat NegInf)"
  shows "\<exists>n. clamp_question_count requested = Inr n"
proof (cases "py_int (case requested of None \<Rightarrow> JInt 10 | Some v \<Rightarrow> v)")
  case (Inl err)
  then have "err = ValueError \<or> err = TypeError"
    using assms
    by (auto simp: py_int_def split: option.splits json.splits py_float.splits)
  with Inl show ?thesis by (auto simp: clamp_question_count_def)
next
  case (Inr n)
  then show ?thesis by (simp add: clamp_question_count_def)
qed

lemma clamp_question_count_examples:
  "clamp_question_count None = Inr 10"
  "clamp_question_count (Some (JInt 3)) = Inr 10"
  "clamp_question_count (Some (JInt 15)) = Inr 15"
  "clamp_question_count (Some (JInt 300)) = Inr 20"
  "clamp_question_count (Some (JStr '' 1_5 '')) = Inr 15"
  "clamp_question_count (Some (JStr ''abc'')) = Inr 10"
  "clamp_question_count (Some JNull) = Inr 10"
  "clamp_question_count (Some (JFloat (Finite (25 / 2)))) = Inr 12"
  "clamp_question_count (Some (JFloat NaN)) = Inr 10"
  by code_simp+

text \<open>
  Claim C10 says that a requested count that cannot be converted to an integer is
  replaced by 10. An infinite float (the JSON number \<open>1e999\<close>) cannot be converted:
  \<open>int\<close> raises OverflowError, which the handler for ValueError and TypeError does
  not catch, so the request ends with that exception instead of continuing with 10.
\<close>

theorem clamp_infinite_count_raises:
  "py_int (JFloat PosInf) = Inl OverflowError
   \<and> clamp_question_count (Some (JFloat PosInf)) = Inl OverflowError"
  by (simp add: clamp_question_count_def py_int_def)


end
